theory Spec2Isabelle
  imports Main "HOL-Library.Char_ord" "HOL-Library.List_Lexorder" "HOL-Library.Sublist"
begin

section \<open>SaveInterestingFilesModule: the data the module reads and writes\<close>

text \<open>
  The module (\<^verbatim>\<open>SaveInterestingFilesModule.cpp\<close>) reads file-set hit artifacts from the
  blackboard, groups them by set name, and for every set copies the hit files and
  directories below \<^verbatim>\<open>outputFolderPath/<set name>/\<close> and writes an XML report.
  The framework (blackboard, image database, file manager) and Poco are outside the
  source file; they are an environment record of operations here, each of which may fail
  the way the source expects it to (an exception with a message; the source's comments
  say of its helper functions that they throw a \<^verbatim>\<open>TskException\<close> on failure).
  The model is of \<^verbatim>\<open>report\<close> and the helper functions it calls; \<^verbatim>\<open>initialize\<close>, which
  fills \<^verbatim>\<open>outputFolderPath\<close>, is not part of it.
\<close>

subsection \<open>Framework types\<close>

text \<open>\<^verbatim>\<open>TSK_FS_META_TYPE_ENUM\<close>: the source only compares with \<^verbatim>\<open>TSK_FS_META_TYPE_DIR\<close>.\<close>

datatype meta_type =
    TSK_FS_META_TYPE_UNDEF
  | TSK_FS_META_TYPE_REG
  | TSK_FS_META_TYPE_DIR
  | TSK_FS_META_TYPE_LNK
  | TSK_FS_META_TYPE_VIRT

text \<open>What the source reads of a \<^verbatim>\<open>TskFile\<close>: \<^verbatim>\<open>getId\<close>, \<^verbatim>\<open>getName\<close>, \<^verbatim>\<open>getMetaType\<close>,
  \<^verbatim>\<open>getUniquePath\<close> and \<^verbatim>\<open>getHash(TskImgDB::MD5)\<close>.\<close>

record tsk_file =
  getId :: nat
  getName :: string
  getMetaType :: meta_type
  getUniquePath :: string
  getHashMD5 :: string

text \<open>Attribute type ids: the source only compares with \<^verbatim>\<open>TSK_SET_NAME\<close>.\<close>

datatype attribute_type = TSK_SET_NAME | TSK_OTHER_ATTRIBUTE nat

record tsk_attribute =
  getAttributeTypeID :: attribute_type
  getValueString :: string
  getContext :: string

record tsk_artifact =
  getArtifactID :: nat
  getObjectID :: nat
  getAttributes :: "tsk_attribute list"

text \<open>\<^verbatim>\<open>TskModule::Status\<close>, as far as the module returns it.\<close>

datatype status = OK | FAIL

text \<open>The two exception families of the source: \<^verbatim>\<open>TskException\<close>, which the module catches,
  and \<^verbatim>\<open>Poco::Exception\<close>, which only \<^verbatim>\<open>createDirectory\<close> catches. Each carries its message.\<close>

datatype exn = TskException string | PocoException string

subsection \<open>The XML report\<close>

text \<open>A Poco DOM node: an element with its attributes and children in order, or a text
  node. The report document is identified with its root element, which is what
  \<^verbatim>\<open>report->firstChild()\<close> returns after \<^verbatim>\<open>report->appendChild(reportRoot)\<close>.\<close>

datatype xml = Element string "(string \<times> string) list" "xml list" | Text string

fun appendChild :: "xml \<Rightarrow> xml \<Rightarrow> xml" where
  "appendChild (Element tag attrs children) c = Element tag attrs (children @ [c])"
| "appendChild (Text t) c = Text t"


subsection \<open>Effects\<close>

text \<open>What a run leaves behind: the file-system operations that succeeded, in order, and
  the log lines, in order.\<close>

datatype fs_event =
    CreatedDirectories string
  | CopiedFile nat string
  | WroteReport string xml

datatype log_event = LOGINFO string | LOGERROR string

record world =
  events :: "fs_event list"
  logged :: "log_event list"

text \<open>The environment. The file-system operations see the operations done so far, so
  that an operation may succeed once and fail later. \<^verbatim>\<open>None\<close> is success, \<^verbatim>\<open>Some m\<close> (or
  \<^verbatim>\<open>Inl m\<close>) is the exception with message \<^verbatim>\<open>m\<close>:
  \<^item> \<open>createDirectories\<close>: \<^verbatim>\<open>Poco::File::createDirectories\<close>, fails with a \<^verbatim>\<open>Poco::Exception\<close>;
  \<^item> \<open>copyFile\<close>: \<^verbatim>\<open>TskFileManager::copyFile\<close> (by file or by file id), fails with a \<^verbatim>\<open>TskException\<close>;
  \<^item> \<open>openFileStream\<close>: the constructor of \<^verbatim>\<open>Poco::FileStream\<close>, fails with a \<^verbatim>\<open>Poco::Exception\<close>;
  \<^item> \<open>getFile\<close>: \<^verbatim>\<open>TskFileManager::getFile\<close>, fails with a \<^verbatim>\<open>TskException\<close>;
  \<^item> \<open>getFileRecords\<close>: the file ids of \<^verbatim>\<open>TskImgDB::getFileRecords("WHERE par_file_id = <id>")\<close>,
    fails with a \<^verbatim>\<open>TskException\<close>;
  \<^item> \<open>getArtifacts\<close>: \<^verbatim>\<open>TskBlackboard::getArtifacts(TSK_INTERESTING_FILE_HIT)\<close>;
  \<^item> \<open>separator\<close>: \<^verbatim>\<open>Poco::Path::separator()\<close>;
  \<^item> \<open>outputFolderPath\<close>: the module's cached output folder;
  \<^item> \<open>wideLiteralOutput\<close>: what the narrow \<^verbatim>\<open>std::stringstream\<close> of \<^verbatim>\<open>createDirectory\<close>
    prints for the wide literal put into it (line 64): the literal's address, not its
    text.\<close>

record env =
  outputFolderPath :: string
  separator :: char
  wideLiteralOutput :: string
  createDirectories :: "fs_event list \<Rightarrow> string \<Rightarrow> string option"
  copyFile :: "fs_event list \<Rightarrow> nat \<Rightarrow> string \<Rightarrow> string option"
  openFileStream :: "fs_event list \<Rightarrow> string \<Rightarrow> string option"
  getFile :: "nat \<Rightarrow> string + tsk_file"
  getFileRecords :: "nat \<Rightarrow> string + nat list"
  getArtifacts :: "tsk_artifact list"

subsection \<open>Strings\<close>

text \<open>Decimal output of an unsigned id by \<^verbatim>\<open>operator<<\<close>.\<close>

fun string_of_nat :: "nat \<Rightarrow> string" where
  "string_of_nat n =
     (if n < 10 then [char_of (48 + n)]
      else string_of_nat (n div 10) @ [char_of (48 + n mod 10)])"

declare string_of_nat.simps [simp del]

text \<open>\<^verbatim>\<open>std::string::rfind\<close> of a character: the last position holding it, \<^verbatim>\<open>None\<close> for
  \<^verbatim>\<open>npos\<close>.\<close>

fun rfind :: "string \<Rightarrow> char \<Rightarrow> nat option" where
  "rfind [] c = None"
| "rfind (x # xs) c =
     (case rfind xs c of
        Some i \<Rightarrow> Some (Suc i)
      | None \<Rightarrow> if x = c then Some 0 else None)"

text \<open>\<^verbatim>\<open>std::string::insert(pos, str)\<close> for \<^verbatim>\<open>pos\<close> within the string.\<close>

definition insert_at :: "string \<Rightarrow> nat \<Rightarrow> string \<Rightarrow> string" where
  "insert_at s pos str = take pos s @ str @ drop pos s"

text \<open>\<^verbatim>\<open>std::string::c_str\<close> put into a stream: the characters before the first NUL.\<close>

definition c_str :: "string \<Rightarrow> string" where
  "c_str s = takeWhile (\<lambda>c. c \<noteq> CHR 0x00) s"

subsection \<open>std::map and std::multimap keyed by strings\<close>

text \<open>A \<^verbatim>\<open>std::map\<close> is its sequence of entries in key order; \<^verbatim>\<open>insert\<close> keeps the entry
  that is already there.\<close>

fun map_insert :: "'k::linorder \<times> 'v \<Rightarrow> ('k \<times> 'v) list \<Rightarrow> ('k \<times> 'v) list" where
  "map_insert (k, v) [] = [(k, v)]"
| "map_insert (k, v) ((k', v') # xs) =
     (if k < k' then (k, v) # (k', v') # xs
      else if k = k' then (k', v') # xs
      else (k', v') # map_insert (k, v) xs)"

text \<open>A \<^verbatim>\<open>std::multimap\<close> is its sequence of entries in key order; \<^verbatim>\<open>insert\<close> puts the new
  entry after the entries with an equal key.\<close>

fun multimap_insert :: "'k::linorder \<times> 'v \<Rightarrow> ('k \<times> 'v) list \<Rightarrow> ('k \<times> 'v) list" where
  "multimap_insert (k, v) [] = [(k, v)]"
| "multimap_insert (k, v) ((k', v') # xs) =
     (if k < k' then (k, v) # (k', v') # xs
      else (k', v') # multimap_insert (k, v) xs)"

text \<open>\<^verbatim>\<open>equal_range\<close>: the entries from the first key not below \<open>k\<close> up to the first key
  above it.\<close>

definition equal_range :: "'k::linorder \<Rightarrow> ('k \<times> 'v) list \<Rightarrow> ('k \<times> 'v) list" where
  "equal_range k xs = takeWhile (\<lambda>p. \<not> k < fst p) (dropWhile (\<lambda>p. fst p < k) xs)"

type_synonym FileSets = "(string \<times> string) list"
type_synonym FileSetHits = "(string \<times> tsk_artifact) list"

section \<open>The module's functions\<close>

subsection \<open>createDirectory and addFileToReport\<close>

text \<open>\<^verbatim>\<open>createDirectory\<close> turns the \<^verbatim>\<open>Poco::Exception\<close> of \<^verbatim>\<open>createDirectories\<close> into a
  \<^verbatim>\<open>TskException\<close>. Its message is built in a narrow stream from the wide literal
  \<^verbatim>\<open>L"SaveInterestingFilesModule failed to create directory '"\<close>, for which the stream
  prints \<open>wideLiteralOutput\<close>, then \<^verbatim>\<open>outputFolderPath\<close> (not \<^verbatim>\<open>path\<close>), then \<^verbatim>\<open>' : \<close> and the
  message of the Poco exception.\<close>

definition createDirectory :: "env \<Rightarrow> string \<Rightarrow> world \<Rightarrow> (exn + unit) \<times> world" where
  "createDirectory env path w =
     (case createDirectories env (events w) path of
        None \<Rightarrow> (Inr (), w\<lparr>events := events w @ [CreatedDirectories path]\<rparr>)
      | Some m \<Rightarrow>
          (Inl (TskException
                 (wideLiteralOutput env @ outputFolderPath env @ [CHR 0x27] @ '' : '' @ m)), w))"

definition addFileToReport :: "tsk_file \<Rightarrow> string \<Rightarrow> xml \<Rightarrow> xml" where
  "addFileToReport file filePath report =
     appendChild report
       (Element
          (if getMetaType file = TSK_FS_META_TYPE_DIR then ''SavedDirectory'' else ''SavedFile'')
          []
          ([Element ''Path'' [] [Text filePath],
            Element ''OriginalPath'' [] [Text (getUniquePath file)]] @
           (if getMetaType file \<noteq> TSK_FS_META_TYPE_DIR
            then [Element ''MD5'' [] [Text (getHashMD5 file)]] else [])))"

subsection \<open>saveDirectoryContents\<close>

text \<open>The recursion follows the parent/child records of the image database, which the
  source does not check for cycles, so the model counts the nesting depth down:
  \<^verbatim>\<open>None\<close> means the depth was not enough. \<open>saveDirectoryContents\<close> is the function,
  \<open>saveFileRecords\<close> its \<^verbatim>\<open>for\<close> loop over the fetched records. An exception leaves the
  loop and the function with the files copied and the report entries added so far.\<close>

fun saveDirectoryContents ::
    "nat \<Rightarrow> env \<Rightarrow> string \<Rightarrow> tsk_file \<Rightarrow> world \<times> xml \<Rightarrow> ((exn + unit) \<times> world \<times> xml) option"
  and saveFileRecords ::
    "nat \<Rightarrow> env \<Rightarrow> string \<Rightarrow> nat list \<Rightarrow> world \<times> xml \<Rightarrow> ((exn + unit) \<times> world \<times> xml) option"
where
  "saveDirectoryContents 0 env dirPath dir (w, report) = None"
| "saveDirectoryContents (Suc fuel) env dirPath dir (w, report) =
     (case getFileRecords env (getId dir) of
        Inl m \<Rightarrow> Some (Inl (TskException m), w, report)
      | Inr fileRecs \<Rightarrow> saveFileRecords fuel env dirPath fileRecs (w, report))"
| "saveFileRecords fuel env dirPath [] (w, report) = Some (Inr (), w, report)"
| "saveFileRecords fuel env dirPath (fileId # fileRecs) (w, report) =
     (case getFile env fileId of
        Inl m \<Rightarrow> Some (Inl (TskException m), w, report)
      | Inr file \<Rightarrow>
          if getMetaType file = TSK_FS_META_TYPE_DIR then
            (let subDirPath = dirPath @ [separator env] @ getName file in
             case createDirectory env subDirPath w of
               (Inl e, w') \<Rightarrow> Some (Inl e, w', report)
             | (Inr u, w') \<Rightarrow>
                 (case saveDirectoryContents fuel env subDirPath file (w', report) of
                    None \<Rightarrow> None
                  | Some (Inl e, w'', report') \<Rightarrow> Some (Inl e, w'', report')
                  | Some (Inr u', w'', report') \<Rightarrow>
                      saveFileRecords fuel env dirPath fileRecs (w'', report')))
          else
            (let filePath = dirPath @ [separator env] @ getName file in
             case copyFile env (events w) (getId file) filePath of
               Some m \<Rightarrow> Some (Inl (TskException m), w, report)
             | None \<Rightarrow>
                 saveFileRecords fuel env dirPath fileRecs
                   (w\<lparr>events := events w @ [CopiedFile (getId file) filePath]\<rparr>,
                    addFileToReport file filePath report)))"

subsection \<open>saveInterestingDirectory and saveInterestingFile\<close>

fun saveInterestingDirectory ::
    "nat \<Rightarrow> env \<Rightarrow> tsk_file \<Rightarrow> string \<Rightarrow> world \<times> xml \<Rightarrow> ((exn + unit) \<times> world \<times> xml) option" where
  "saveInterestingDirectory fuel env dir fileSetFolderPath (w, report) =
       (let path = fileSetFolderPath @ [separator env] @ getName dir @ ''_'' @
                   string_of_nat (getId dir) @ [separator env] @ getName dir in
        case createDirectory env path w of
          (Inl e, w') \<Rightarrow> Some (Inl e, w', report)
        | (Inr u, w') \<Rightarrow>
            saveDirectoryContents fuel env path dir (w', addFileToReport dir path report))"

text \<open>Lines 167 to 181 of the source: the file name with \<^verbatim>\<open>_<id>\<close> put in.\<close>

definition savedFileName :: "tsk_file \<Rightarrow> string" where
  "savedFileName file =
     (let fileName = getName file;
          id = ''_'' @ string_of_nat (getId file) in
      case rfind fileName (CHR ''.'') of
        Some pos \<Rightarrow> if pos \<noteq> 0 then insert_at fileName pos id else fileName @ id
      | None \<Rightarrow> fileName @ id)"

fun saveInterestingFile ::
    "env \<Rightarrow> tsk_file \<Rightarrow> string \<Rightarrow> world \<times> xml \<Rightarrow> (exn + unit) \<times> world \<times> xml" where
  "saveInterestingFile env file fileSetFolderPath (w, report) =
       (let filePath = c_str fileSetFolderPath @ [separator env] @ c_str (savedFileName file) in
        case copyFile env (events w) (getId file) filePath of
          Some m \<Rightarrow> (Inl (TskException m), w, report)
        | None \<Rightarrow>
            (Inr (), w\<lparr>events := events w @ [CopiedFile (getId file) filePath]\<rparr>,
             addFileToReport file filePath report))"

subsection \<open>saveFiles\<close>

text \<open>The body of the \<^verbatim>\<open>try\<close> block of the loop over the hits of a set.\<close>

fun saveFileHit ::
    "nat \<Rightarrow> env \<Rightarrow> string \<Rightarrow> tsk_artifact \<Rightarrow> world \<times> xml \<Rightarrow> ((exn + unit) \<times> world \<times> xml) option" where
  "saveFileHit fuel env fileSetFolderPath fileHit (w, report) =
       (case getFile env (getObjectID fileHit) of
          Inl m \<Rightarrow> Some (Inl (TskException m), w, report)
        | Inr file \<Rightarrow>
            if getMetaType file = TSK_FS_META_TYPE_DIR
            then saveInterestingDirectory fuel env file fileSetFolderPath (w, report)
            else Some (saveInterestingFile env file fileSetFolderPath (w, report)))"

text \<open>The loop over the hits of a set with its \<^verbatim>\<open>catch (TskException &)\<close>: the message is
  logged, \<^verbatim>\<open>returnCode\<close> becomes \<^verbatim>\<open>FAIL\<close>, and the loop goes on. Another exception leaves
  the loop.\<close>

fun saveFileHits ::
    "nat \<Rightarrow> env \<Rightarrow> string \<Rightarrow> tsk_artifact list \<Rightarrow> status \<times> world \<times> xml \<Rightarrow>
     ((exn + unit) \<times> status \<times> world \<times> xml) option" where
  "saveFileHits fuel env folder [] (returnCode, w, report) = Some (Inr (), returnCode, w, report)"
| "saveFileHits fuel env folder (fileHit # fileHits) (returnCode, w, report) =
     (case saveFileHit fuel env folder fileHit (w, report) of
        None \<Rightarrow> None
      | Some (Inr u, w', report') \<Rightarrow> saveFileHits fuel env folder fileHits (returnCode, w', report')
      | Some (Inl (TskException m), w', report') \<Rightarrow>
          saveFileHits fuel env folder fileHits
            (FAIL, w'\<lparr>logged := logged w' @ [LOGERROR m]\<rparr>, report')
      | Some (Inl (PocoException m), w', report') \<Rightarrow>
          Some (Inl (PocoException m), returnCode, w', report'))"

text \<open>\<^verbatim>\<open>saveFiles\<close>: \<^verbatim>\<open>returnCode\<close> is passed by reference, so it is returned also when the
  function is left by an exception.\<close>

fun saveFiles ::
    "nat \<Rightarrow> env \<Rightarrow> string \<Rightarrow> string \<Rightarrow> tsk_artifact list \<Rightarrow> status \<times> world \<Rightarrow>
     ((exn + unit) \<times> status \<times> world) option" where
  "saveFiles fuel env setName setDescription fileSetHitsRange (returnCode, w) =
       (let report = Element ''InterestingFileSet''
                       [(''name'', setName), (''description'', setDescription)] [];
            fileSetFolderPath = outputFolderPath env @ [separator env] @ setName in
        case createDirectory env fileSetFolderPath w of
          (Inl e, w') \<Rightarrow> Some (Inl e, returnCode, w')
        | (Inr u, w') \<Rightarrow>
            (case saveFileHits fuel env fileSetFolderPath fileSetHitsRange (returnCode, w', report) of
               None \<Rightarrow> None
             | Some (Inl e, returnCode', w'', report') \<Rightarrow> Some (Inl e, returnCode', w'')
             | Some (Inr u', returnCode', w'', report') \<Rightarrow>
                 (let reportPath = fileSetFolderPath @ [separator env] @ setName @ ''.xml'' in
                  case openFileStream env (events w'') reportPath of
                    Some m \<Rightarrow> Some (Inl (PocoException m), returnCode', w'')
                  | None \<Rightarrow>
                      Some (Inr (), returnCode',
                            w''\<lparr>events := events w'' @ [WroteReport reportPath report']\<rparr>))))"

subsection \<open>report\<close>

text \<open>The loop over the attributes of one artifact.\<close>

fun findSetName ::
    "tsk_artifact \<Rightarrow> tsk_attribute list \<Rightarrow> bool \<times> FileSets \<times> FileSetHits \<Rightarrow>
     bool \<times> FileSets \<times> FileSetHits" where
  "findSetName fileHit [] (setNameFound, fileSets, fileSetHits) =
     (setNameFound, fileSets, fileSetHits)"
| "findSetName fileHit (attr # attrs) (setNameFound, fileSets, fileSetHits) =
     (if getAttributeTypeID attr = TSK_SET_NAME then
        findSetName fileHit attrs
          (True,
           map_insert (getValueString attr, getContext attr) fileSets,
           multimap_insert (getValueString attr, fileHit) fileSetHits)
      else findSetName fileHit attrs (setNameFound, fileSets, fileSetHits))"

text \<open>The loop over the artifacts.\<close>

fun groupFileSetHits ::
    "tsk_artifact list \<Rightarrow> FileSets \<times> FileSetHits \<times> world \<Rightarrow> FileSets \<times> FileSetHits \<times> world" where
  "groupFileSetHits [] (fileSets, fileSetHits, w) = (fileSets, fileSetHits, w)"
| "groupFileSetHits (fileHit # fileSetHitArtifacts) (fileSets, fileSetHits, w) =
     (case findSetName fileHit (getAttributes fileHit) (False, fileSets, fileSetHits) of
        (setNameFound, fileSets', fileSetHits') \<Rightarrow>
          groupFileSetHits fileSetHitArtifacts
            (fileSets', fileSetHits',
             if \<not> setNameFound then
               w\<lparr>logged := logged w @
                 [LOGERROR (''SaveInterestingFilesModule failed to find set name TSK_SET_NAME for TSK_INTERESTING_FILE_HIT artifact with id '' @
                            string_of_nat (getArtifactID fileHit))]\<rparr>
             else w))"

text \<open>The loop over the file sets, in the order of the map.\<close>

fun saveFileSets ::
    "nat \<Rightarrow> env \<Rightarrow> FileSetHits \<Rightarrow> FileSets \<Rightarrow> status \<times> world \<Rightarrow>
     ((exn + unit) \<times> status \<times> world) option" where
  "saveFileSets fuel env fileSetHits [] (returnCode, w) = Some (Inr (), returnCode, w)"
| "saveFileSets fuel env fileSetHits (fileSet # fileSets) (returnCode, w) =
     (case saveFiles fuel env (fst fileSet) (snd fileSet)
             (map snd (equal_range (fst fileSet) fileSetHits)) (returnCode, w) of
        None \<Rightarrow> None
      | Some (Inl e, returnCode', w') \<Rightarrow> Some (Inl e, returnCode', w')
      | Some (Inr u, returnCode', w') \<Rightarrow> saveFileSets fuel env fileSetHits fileSets (returnCode', w'))"

text \<open>The \<^verbatim>\<open>try\<close> block of \<^verbatim>\<open>report\<close>.\<close>

fun report_try ::
    "nat \<Rightarrow> env \<Rightarrow> status \<times> world \<Rightarrow> ((exn + unit) \<times> status \<times> world) option" where
  "report_try fuel env (returnCode, w) =
       (case createDirectory env (outputFolderPath env) w of
          (Inl e, w') \<Rightarrow> Some (Inl e, returnCode, w')
        | (Inr u, w') \<Rightarrow>
            (case groupFileSetHits (getArtifacts env) ([], [], w') of
               (fileSets, fileSetHits, w'') \<Rightarrow>
                 saveFileSets fuel env fileSetHits fileSets (returnCode, w'')))"

text \<open>\<^verbatim>\<open>report\<close>: returns the status, or leaves with the exception its \<^verbatim>\<open>catch\<close> does not
  handle.\<close>

definition report :: "nat \<Rightarrow> env \<Rightarrow> world \<Rightarrow> ((exn + status) \<times> world) option" where
  "report fuel env w =
     (let ws = w\<lparr>logged := logged w @ [LOGINFO ''SaveInterestingFilesModule save operations started'']\<rparr> in
      case report_try fuel env (OK, ws) of
        None \<Rightarrow> None
      | Some (Inr u, returnCode, w') \<Rightarrow>
          Some (Inr returnCode,
                w'\<lparr>logged := logged w' @ [LOGINFO ''SaveInterestingFilesModule save operations finished'']\<rparr>)
      | Some (Inl (TskException m), returnCode, w') \<Rightarrow>
          Some (Inr FAIL,
                w'\<lparr>logged := logged w' @ [LOGERROR m,
                       LOGINFO ''SaveInterestingFilesModule save operations finished'']\<rparr>)
      | Some (Inl (PocoException m), returnCode, w') \<Rightarrow> Some (Inl (PocoException m), w'))"

section \<open>Vocabulary of the statements\<close>

text \<open>The two kinds of report entry that \<open>addFileToReport\<close> builds.\<close>

definition SavedFile_element :: "tsk_file \<Rightarrow> string \<Rightarrow> xml" where
  "SavedFile_element file filePath =
     Element ''SavedFile'' []
       [Element ''Path'' [] [Text filePath],
        Element ''OriginalPath'' [] [Text (getUniquePath file)],
        Element ''MD5'' [] [Text (getHashMD5 file)]]"

definition SavedDirectory_element :: "tsk_file \<Rightarrow> string \<Rightarrow> xml" where
  "SavedDirectory_element dir dirPath =
     Element ''SavedDirectory'' []
       [Element ''Path'' [] [Text dirPath],
        Element ''OriginalPath'' [] [Text (getUniquePath dir)]]"

text \<open>A chain of files below a directory: each one is among the records the image database
  returns for the one before, and all but the last are directories. \<open>plain_path\<close> puts the
  plain names of a chain below a path.\<close>

definition is_child :: "env \<Rightarrow> tsk_file \<Rightarrow> tsk_file \<Rightarrow> bool" where
  "is_child env dir file =
     (case getFileRecords env (getId dir) of
        Inl m \<Rightarrow> False
      | Inr fileRecs \<Rightarrow> list_ex (\<lambda>fileId. getFile env fileId = Inr file) fileRecs)"

fun is_chain :: "env \<Rightarrow> tsk_file \<Rightarrow> tsk_file list \<Rightarrow> bool" where
  "is_chain env dir [] = True"
| "is_chain env dir (file # files) =
     (is_child env dir file \<and>
      (files = [] \<or> getMetaType file = TSK_FS_META_TYPE_DIR) \<and>
      is_chain env file files)"

definition plain_path :: "env \<Rightarrow> string \<Rightarrow> tsk_file list \<Rightarrow> string" where
  "plain_path env dirPath chain = dirPath @ concat (map (\<lambda>file. separator env # getName file) chain)"

text \<open>A chain nested below the directory \<open>dir\<close>, and the item it stands for when \<open>dir\<close> is
  saved at \<open>dirPath\<close>: the last file of the chain with the path of plain names. An item
  leaves one file-system event, and a report entry when it is not a directory.\<close>

definition is_nested :: "env \<Rightarrow> tsk_file \<Rightarrow> tsk_file list \<Rightarrow> bool" where
  "is_nested env dir chain = (chain \<noteq> [] \<and> is_chain env dir chain)"

definition chain_item :: "env \<Rightarrow> string \<Rightarrow> tsk_file list \<Rightarrow> tsk_file \<times> string" where
  "chain_item env dirPath chain = (last chain, plain_path env dirPath chain)"

fun item_event :: "tsk_file \<times> string \<Rightarrow> fs_event" where
  "item_event (file, path) =
     (if getMetaType file = TSK_FS_META_TYPE_DIR then CreatedDirectories path
      else CopiedFile (getId file) path)"

fun item_entries :: "tsk_file \<times> string \<Rightarrow> xml list" where
  "item_entries (file, path) =
     (if getMetaType file = TSK_FS_META_TYPE_DIR then [] else [SavedFile_element file path])"

text \<open>\<open>exported s items s'\<close>: from \<open>s\<close> to \<open>s'\<close>, exactly the events and report entries of
  \<open>items\<close> were added, in order, and nothing was logged.\<close>

definition exported :: "world \<times> xml \<Rightarrow> (tsk_file \<times> string) list \<Rightarrow> world \<times> xml \<Rightarrow> bool" where
  "exported s items s' =
     (events (fst s') = events (fst s) @ map item_event items \<and>
      logged (fst s') = logged (fst s) \<and>
      snd s' = foldl appendChild (snd s) (concat (map item_entries items)))"

text \<open>The events that write a report.\<close>

fun is_report_event :: "fs_event \<Rightarrow> bool" where
  "is_report_event (WroteReport path doc) = True"
| "is_report_event (CreatedDirectories path) = False"
| "is_report_event (CopiedFile fileId path) = False"

text \<open>The set-name attributes of an artifact; over a list of artifacts, the (set name,
  description) pairs and the (set name, artifact) pairs in the order the artifacts and
  their attributes are met; the log line for an artifact without set name.\<close>

definition set_name_attributes :: "tsk_artifact \<Rightarrow> tsk_attribute list" where
  "set_name_attributes fileHit =
     filter (\<lambda>attr. getAttributeTypeID attr = TSK_SET_NAME) (getAttributes fileHit)"

definition name_pairs :: "tsk_artifact list \<Rightarrow> (string \<times> string) list" where
  "name_pairs arts =
     concat (map (\<lambda>fileHit. map (\<lambda>attr. (getValueString attr, getContext attr))
                                (set_name_attributes fileHit)) arts)"

definition hit_pairs :: "tsk_artifact list \<Rightarrow> (string \<times> tsk_artifact) list" where
  "hit_pairs arts =
     concat (map (\<lambda>fileHit. map (\<lambda>attr. (getValueString attr, fileHit))
                                (set_name_attributes fileHit)) arts)"

definition no_set_name_error :: "tsk_artifact \<Rightarrow> log_event" where
  "no_set_name_error fileHit =
     LOGERROR (''SaveInterestingFilesModule failed to find set name TSK_SET_NAME for TSK_INTERESTING_FILE_HIT artifact with id '' @
               string_of_nat (getArtifactID fileHit))"

text \<open>Two worlds with the same file-system events; they may differ in what was logged.\<close>

definition same_events :: "world \<Rightarrow> world \<Rightarrow> bool" where
  "same_events w1 w2 = (events w1 = events w2)"

section \<open>An example case\<close>

text \<open>A small image: two files named \<^verbatim>\<open>report.txt\<close> (ids 5 and 9), a hidden file, a file
  without extension, and the directory \<^verbatim>\<open>Photos\<close> (id 42) holding \<^verbatim>\<open>a.jpg\<close> and the
  subdirectory \<^verbatim>\<open>sub\<close> with \<^verbatim>\<open>b.jpg\<close>. \<open>demo_env badDirs badFiles arts\<close> is the
  environment in which creating a directory in \<open>badDirs\<close> and copying a file in
  \<open>badFiles\<close> fail, with the artifacts \<open>arts\<close> on the blackboard.\<close>

definition demo_file :: "nat \<Rightarrow> string \<Rightarrow> meta_type \<Rightarrow> tsk_file" where
  "demo_file i n t =
     \<lparr>getId = i, getName = n, getMetaType = t, getUniquePath = ''/img/'' @ n, getHashMD5 = ''''\<rparr>"

definition demo_hit :: "nat \<Rightarrow> nat \<Rightarrow> string \<Rightarrow> string \<Rightarrow> tsk_artifact" where
  "demo_hit a obj n d =
     \<lparr>getArtifactID = a, getObjectID = obj,
      getAttributes = [\<lparr>getAttributeTypeID = TSK_SET_NAME, getValueString = n, getContext = d\<rparr>]\<rparr>"

definition demo_getFile :: "nat \<Rightarrow> string + tsk_file" where
  "demo_getFile i =
     (if i = 5 then Inr (demo_file 5 ''report.txt'' TSK_FS_META_TYPE_REG)
      else if i = 9 then Inr (demo_file 9 ''report.txt'' TSK_FS_META_TYPE_REG)
      else if i = 3 then Inr (demo_file 3 ''.bashrc'' TSK_FS_META_TYPE_REG)
      else if i = 7 then Inr (demo_file 7 ''notes'' TSK_FS_META_TYPE_REG)
      else if i = 42 then Inr (demo_file 42 ''Photos'' TSK_FS_META_TYPE_DIR)
      else if i = 43 then Inr (demo_file 43 ''a.jpg'' TSK_FS_META_TYPE_REG)
      else if i = 44 then Inr (demo_file 44 ''sub'' TSK_FS_META_TYPE_DIR)
      else if i = 45 then Inr (demo_file 45 ''b.jpg'' TSK_FS_META_TYPE_REG)
      else Inl ''no such file'')"

definition demo_env :: "string list \<Rightarrow> nat list \<Rightarrow> tsk_artifact list \<Rightarrow> env" where
  "demo_env badDirs badFiles arts =
     \<lparr>outputFolderPath = ''out'', separator = CHR ''/'', wideLiteralOutput = ''0x4a7c30'',
      createDirectories = (\<lambda>ev p. if p \<in> set badDirs then Some ''denied'' else None),
      copyFile = (\<lambda>ev i p. if i \<in> set badFiles then Some ''copy failed'' else None),
      openFileStream = (\<lambda>ev p. None),
      getFile = demo_getFile,
      getFileRecords = (\<lambda>i. if i = 42 then Inr [43, 44] else if i = 44 then Inr [45] else Inr []),
      getArtifacts = arts\<rparr>"

definition demo_start :: world where "demo_start = \<lparr>events = [], logged = []\<rparr>"

text \<open>What saving \<^verbatim>\<open>Photos\<close> below the folder \<^verbatim>\<open>setA\<close> leaves.\<close>

definition demo_photos_events :: "fs_event list" where
  "demo_photos_events =
     [CreatedDirectories ''setA/Photos_42/Photos'',
      CopiedFile 43 ''setA/Photos_42/Photos/a.jpg'',
      CreatedDirectories ''setA/Photos_42/Photos/sub'',
      CopiedFile 45 ''setA/Photos_42/Photos/sub/b.jpg'']"

definition demo_photos_report :: xml where
  "demo_photos_report =
     Element ''InterestingFileSet'' []
       [Element ''SavedDirectory'' []
          [Element ''Path'' [] [Text ''setA/Photos_42/Photos''],
           Element ''OriginalPath'' [] [Text ''/img/Photos'']],
        Element ''SavedFile'' []
          [Element ''Path'' [] [Text ''setA/Photos_42/Photos/a.jpg''],
           Element ''OriginalPath'' [] [Text ''/img/a.jpg''],
           Element ''MD5'' [] [Text []]],
        Element ''SavedFile'' []
          [Element ''Path'' [] [Text ''setA/Photos_42/Photos/sub/b.jpg''],
           Element ''OriginalPath'' [] [Text ''/img/b.jpg''],
           Element ''MD5'' [] [Text []]]]"

text \<open>The report root of a set and a \<^verbatim>\<open>SavedFile\<close> entry of the example image.\<close>

definition demo_set_report :: "string \<Rightarrow> string \<Rightarrow> xml list \<Rightarrow> xml" where
  "demo_set_report n d entries =
     Element ''InterestingFileSet'' [(''name'', n), (''description'', d)] entries"

definition demo_entry :: "string \<Rightarrow> string \<Rightarrow> xml" where
  "demo_entry path n =
     Element ''SavedFile'' []
       [Element ''Path'' [] [Text path],
        Element ''OriginalPath'' [] [Text (''/img/'' @ n)],
        Element ''MD5'' [] [Text []]]"

text \<open>Three hits in two sets, the set \<^verbatim>\<open>setA\<close> with two descriptions, and the events
  of the run over them.\<close>

definition demo_three_hits :: "tsk_artifact list" where
  "demo_three_hits =
     [demo_hit 100 5 ''setB'' ''b'', demo_hit 101 3 ''setA'' ''first'',
      demo_hit 102 9 ''setA'' ''second'']"

definition demo_three_hits_events :: "fs_event list" where
  "demo_three_hits_events =
     [CreatedDirectories ''out'',
      CreatedDirectories ''out/setA'',
      CopiedFile 3 ''out/setA/.bashrc_3'',
      CopiedFile 9 ''out/setA/report_9.txt'',
      WroteReport ''out/setA/setA.xml''
        (demo_set_report ''setA'' ''first''
           [demo_entry ''out/setA/.bashrc_3'' ''.bashrc'',
            demo_entry ''out/setA/report_9.txt'' ''report.txt'']),
      CreatedDirectories ''out/setB'',
      CopiedFile 5 ''out/setB/report_5.txt'',
      WroteReport ''out/setB/setB.xml''
        (demo_set_report ''setB'' ''b'' [demo_entry ''out/setB/report_5.txt'' ''report.txt''])]"

text \<open>An artifact without a set-name attribute.\<close>

definition demo_malformed_hit :: tsk_artifact where
  "demo_malformed_hit =
     \<lparr>getArtifactID = 103, getObjectID = 9,
      getAttributes = [\<lparr>getAttributeTypeID = TSK_OTHER_ATTRIBUTE 1, getValueString = ''setA'',
                        getContext = ''other''\<rparr>]\<rparr>"


section \<open>Strings and file names\<close>

lemma rfind_None_iff: "rfind s c = None \<longleftrightarrow> c \<notin> set s"
  by (induction s) (auto split: option.splits)

lemma rfind_last: "c \<notin> set b \<Longrightarrow> rfind (a @ c # b) c = Some (length a)"
  by (induction a) (auto simp: rfind_None_iff[THEN iffD2] split: option.splits)

lemma c_str_id: "CHR 0x00 \<notin> set s \<Longrightarrow> c_str s = s"
  by (auto simp: c_str_def takeWhile_eq_all_conv)

lemma string_of_nat_no_NUL: "CHR 0x00 \<notin> set (string_of_nat n)"
proof (induction n rule: string_of_nat.induct)
  case (1 n)
  have digit: "char_of (48 + d) \<noteq> CHR 0x00" if "d < 10" for d :: nat
  proof
    assume "char_of (48 + d) = CHR 0x00"
    then have "of_char (char_of (48 + d) :: char) = (of_char (CHR 0x00) :: nat)" by simp
    with that show False by (simp add: of_char_of)
  qed
  show ?case
  proof (cases "n < 10")
    case True
    with digit [of n] show ?thesis by (auto simp: string_of_nat.simps [of n])
  next
    case False
    with 1 digit [of "n mod 10"] show ?thesis by (auto simp: string_of_nat.simps [of n])
  qed
qed

lemma savedFileName_no_NUL:
  "CHR 0x00 \<notin> set (getName file) \<Longrightarrow> CHR 0x00 \<notin> set (savedFileName file)"
  by (auto simp: savedFileName_def insert_at_def string_of_nat_no_NUL Let_def
        dest: in_set_takeD in_set_dropD split: option.splits)

text \<open>
  Claim C4. A file hit with name \<open>n\<close> and id \<open>i\<close> is saved under \<open>n\<close> with \<^verbatim>\<open>_<i>\<close> put
  immediately before the last \<^verbatim>\<open>.\<close> of \<open>n\<close>; when that \<^verbatim>\<open>.\<close> is the first character of
  \<open>n\<close>, or \<open>n\<close> has no \<^verbatim>\<open>.\<close>, \<^verbatim>\<open>_<i>\<close> is put at the end of \<open>n\<close>. The file is copied to
  that name in the folder of the set, and the report entry carries the same path (the
  folder and the name being strings without NUL, which \<^verbatim>\<open>c_str\<close> leaves whole).
\<close>

theorem saveInterestingFile_name:
  "(\<forall>a b. getName f = a @ CHR ''.'' # b \<and> CHR ''.'' \<notin> set b \<and> a \<noteq> [] \<longrightarrow>
      savedFileName f = a @ ''_'' @ string_of_nat (getId f) @ CHR ''.'' # b) \<and>
   (CHR ''.'' \<notin> set (getName f) \<or> (\<exists>b. getName f = CHR ''.'' # b \<and> CHR ''.'' \<notin> set b) \<longrightarrow>
      savedFileName f = getName f @ ''_'' @ string_of_nat (getId f)) \<and>
   (CHR 0x00 \<notin> set folder \<and> CHR 0x00 \<notin> set (getName f) \<and>
    copyFile env (events w) (getId f) (folder @ [separator env] @ savedFileName f) = None \<longrightarrow>
      saveInterestingFile env f folder (w, doc) =
        (Inr (),
         w\<lparr>events := events w @ [CopiedFile (getId f) (folder @ [separator env] @ savedFileName f)]\<rparr>,
         addFileToReport f (folder @ [separator env] @ savedFileName f) doc))"
proof (intro conjI allI impI)
  fix a b
  assume h: "getName f = a @ CHR ''.'' # b \<and> CHR ''.'' \<notin> set b \<and> a \<noteq> []"
  then have "rfind (getName f) (CHR ''.'') = Some (length a)"
    by (simp add: rfind_last)
  with h show "savedFileName f = a @ ''_'' @ string_of_nat (getId f) @ CHR ''.'' # b"
    by (simp add: savedFileName_def insert_at_def)
next
  assume "CHR ''.'' \<notin> set (getName f) \<or> (\<exists>b. getName f = CHR ''.'' # b \<and> CHR ''.'' \<notin> set b)"
  then show "savedFileName f = getName f @ ''_'' @ string_of_nat (getId f)"
  proof
    assume "CHR ''.'' \<notin> set (getName f)"
    then have "rfind (getName f) (CHR ''.'') = None"
      by (simp add: rfind_None_iff)
    then show ?thesis by (simp add: savedFileName_def)
  next
    assume "\<exists>b. getName f = CHR ''.'' # b \<and> CHR ''.'' \<notin> set b"
    then obtain b where b: "getName f = CHR ''.'' # b" "CHR ''.'' \<notin> set b" by blast
    then have "rfind (getName f) (CHR ''.'') = Some 0"
      using rfind_last [of "CHR ''.''" b "[]"] by simp
    then show ?thesis by (simp add: savedFileName_def)
  qed
next
  assume h: "CHR 0x00 \<notin> set folder \<and> CHR 0x00 \<notin> set (getName f) \<and>
    copyFile env (events w) (getId f) (folder @ [separator env] @ savedFileName f) = None"
  then have "c_str folder = folder" "c_str (savedFileName f) = savedFileName f"
    by (simp_all add: c_str_id savedFileName_no_NUL)
  with h show "saveInterestingFile env f folder (w, doc) =
        (Inr (),
         w\<lparr>events := events w @ [CopiedFile (getId f) (folder @ [separator env] @ savedFileName f)]\<rparr>,
         addFileToReport f (folder @ [separator env] @ savedFileName f) doc)"
    by (simp add: Let_def)
qed


theorem saveInterestingFile_name_witness:
  "savedFileName (demo_file 5 ''report.txt'' TSK_FS_META_TYPE_REG) = ''report_5.txt'' \<and>
   savedFileName (demo_file 3 ''.bashrc'' TSK_FS_META_TYPE_REG) = ''.bashrc_3'' \<and>
   savedFileName (demo_file 7 ''notes'' TSK_FS_META_TYPE_REG) = ''notes_7'' \<and>
   saveInterestingFile (demo_env [] [] []) (demo_file 9 ''report.txt'' TSK_FS_META_TYPE_REG)
       ''out/setA'' (demo_start, Element ''InterestingFileSet'' [] []) =
     (Inr (), \<lparr>events = [CopiedFile 9 ''out/setA/report_9.txt''], logged = []\<rparr>,
      Element ''InterestingFileSet'' []
        [Element ''SavedFile'' []
           [Element ''Path'' [] [Text ''out/setA/report_9.txt''],
            Element ''OriginalPath'' [] [Text ''/img/report.txt''],
            Element ''MD5'' [] [Text []]]])"
proof -
  let ?r = "demo_file 5 ''report.txt'' TSK_FS_META_TYPE_REG"
  let ?b = "demo_file 3 ''.bashrc'' TSK_FS_META_TYPE_REG"
  let ?n = "demo_file 7 ''notes'' TSK_FS_META_TYPE_REG"
  let ?q = "demo_file 9 ''report.txt'' TSK_FS_META_TYPE_REG"
  have n5: "string_of_nat 5 = ''5''" and n3: "string_of_nat 3 = ''3''"
    and n7: "string_of_nat 7 = ''7''" and n9: "string_of_nat 9 = ''9''"
    by code_simp+
  have h1: "getName ?r = ''report'' @ CHR ''.'' # ''txt'' \<and> CHR ''.'' \<notin> set ''txt'' \<and> ''report'' \<noteq> []"
    by (simp add: demo_file_def)
  have c1: "savedFileName ?r = ''report_5.txt''"
    using saveInterestingFile_name [of ?r, THEN conjunct1, rule_format, OF h1] n5
    by (simp add: demo_file_def)
  have h2: "CHR ''.'' \<notin> set (getName ?b) \<or> (\<exists>b. getName ?b = CHR ''.'' # b \<and> CHR ''.'' \<notin> set b)"
    by (simp add: demo_file_def)
  have c2: "savedFileName ?b = ''.bashrc_3''"
    using saveInterestingFile_name [of ?b, THEN conjunct2, THEN conjunct1, rule_format, OF h2] n3
    by (simp add: demo_file_def)
  have h3: "CHR ''.'' \<notin> set (getName ?n) \<or> (\<exists>b. getName ?n = CHR ''.'' # b \<and> CHR ''.'' \<notin> set b)"
    by (simp add: demo_file_def)
  have c3: "savedFileName ?n = ''notes_7''"
    using saveInterestingFile_name [of ?n, THEN conjunct2, THEN conjunct1, rule_format, OF h3] n7
    by (simp add: demo_file_def)
  have h4: "getName ?q = ''report'' @ CHR ''.'' # ''txt'' \<and> CHR ''.'' \<notin> set ''txt'' \<and> ''report'' \<noteq> []"
    by (simp add: demo_file_def)
  have c4: "savedFileName ?q = ''report_9.txt''"
    using saveInterestingFile_name [of ?q, THEN conjunct1, rule_format, OF h4] n9
    by (simp add: demo_file_def)
  have h5: "CHR 0x00 \<notin> set ''out/setA'' \<and> CHR 0x00 \<notin> set (getName ?q) \<and>
            copyFile (demo_env [] [] []) (events demo_start) (getId ?q)
              (''out/setA'' @ [separator (demo_env [] [] [])] @ savedFileName ?q) = None"
    by (simp add: demo_env_def demo_file_def)
  have c5: "saveInterestingFile (demo_env [] [] []) ?q ''out/setA''
              (demo_start, Element ''InterestingFileSet'' [] []) =
            (Inr (), \<lparr>events = [CopiedFile 9 ''out/setA/report_9.txt''], logged = []\<rparr>,
             Element ''InterestingFileSet'' []
               [Element ''SavedFile'' []
                  [Element ''Path'' [] [Text ''out/setA/report_9.txt''],
                   Element ''OriginalPath'' [] [Text ''/img/report.txt''],
                   Element ''MD5'' [] [Text []]]])"
    using saveInterestingFile_name [where f = "?q" and env = "demo_env [] [] []" and
        w = demo_start and folder = "''out/setA''" and doc = "Element ''InterestingFileSet'' [] []",
        THEN conjunct2, THEN conjunct2, rule_format, OF h5] c4
    by (simp add: demo_env_def demo_file_def demo_start_def addFileToReport_def)
  from c1 c2 c3 c5 show ?thesis by simp
qed

section \<open>Saving the contents of a directory\<close>

lemma createDirectory_cases:
  "createDirectory env path w = (r, w') \<Longrightarrow>
     (r = Inr () \<and> createDirectories env (events w) path = None \<and>
        w' = w\<lparr>events := events w @ [CreatedDirectories path]\<rparr>) \<or>
     (\<exists>m. r = Inl (TskException m) \<and> createDirectories env (events w) path \<noteq> None \<and> w' = w)"
  by (auto simp: createDirectory_def split: option.splits)

lemma addFileToReport_file:
  "getMetaType file \<noteq> TSK_FS_META_TYPE_DIR \<Longrightarrow>
   addFileToReport file path doc = appendChild doc (SavedFile_element file path)"
  by (simp add: addFileToReport_def SavedFile_element_def)

lemma addFileToReport_dir:
  "getMetaType file = TSK_FS_META_TYPE_DIR \<Longrightarrow>
   addFileToReport file path doc = appendChild doc (SavedDirectory_element file path)"
  by (simp add: addFileToReport_def SavedDirectory_element_def)

lemma exported_Nil: "exported s [] s"
  by (simp add: exported_def)

lemma exported_trans:
  "exported s xs s' \<Longrightarrow> exported s' ys s'' \<Longrightarrow> exported s (xs @ ys) s''"
  by (simp add: exported_def)

lemma is_nested_child:
  "getFileRecords env (getId dir) = Inr fileRecs \<Longrightarrow> fileId \<in> set fileRecs \<Longrightarrow>
   getFile env fileId = Inr f \<Longrightarrow> is_nested env dir [f]"
  by (auto simp: is_nested_def is_child_def list_ex_iff)

lemma chain_item_single:
  "chain_item env dirPath [f] = (f, dirPath @ [separator env] @ getName f)"
  by (simp add: chain_item_def plain_path_def)

lemma is_nested_deeper:
  "getFileRecords env (getId dir) = Inr fileRecs \<Longrightarrow> fileId \<in> set fileRecs \<Longrightarrow>
   getFile env fileId = Inr f \<Longrightarrow> getMetaType f = TSK_FS_META_TYPE_DIR \<Longrightarrow>
   is_nested env f chain \<Longrightarrow> is_nested env dir (f # chain)"
  by (auto simp: is_nested_def is_child_def list_ex_iff)

lemma chain_item_deeper:
  "chain \<noteq> [] \<Longrightarrow>
   chain_item env (dirPath @ [separator env] @ getName f) chain = chain_item env dirPath (f # chain)"
  by (simp add: chain_item_def plain_path_def)

lemma chain_item_deeper_map:
  assumes "\<forall>c \<in> set cs. is_nested env f c"
  shows "map (chain_item env (dirPath @ [separator env] @ getName f)) cs =
         map (chain_item env dirPath) (map ((#) f) cs)"
  using assms by (simp add: chain_item_def plain_path_def is_nested_def)

lemma is_nested_cases:
  assumes "is_nested env dir c" and "getFileRecords env (getId dir) = Inr fileRecs"
  obtains fileId f rest where "c = f # rest" and "fileId \<in> set fileRecs"
    and "getFile env fileId = Inr f"
    and "rest = [] \<or> getMetaType f = TSK_FS_META_TYPE_DIR \<and> is_nested env f rest"
  using assms by (cases c) (auto simp: is_nested_def is_child_def list_ex_iff)

text \<open>What a descent leaves is the events and entries of a list of nested chains; when it
  returns normally, every nested chain is in that list. For the loop: every record of the
  list is there, with every chain below it when it is a directory.\<close>

lemma saveDirectoryContents_exported:
  "saveDirectoryContents fuel env dirPath dir s = Some (r, s') \<Longrightarrow>
     (\<forall>m. r \<noteq> Inl (PocoException m)) \<and>
     (\<exists>cs. exported s (map (chain_item env dirPath) cs) s' \<and>
               (\<forall>c \<in> set cs. is_nested env dir c) \<and>
               (r = Inr () \<longrightarrow> (\<forall>c. is_nested env dir c \<longrightarrow> c \<in> set cs)))"
  "saveFileRecords fuel env dirPath fileRecs s = Some (r, s') \<Longrightarrow>
     getFileRecords env (getId parent) = Inr allRecs \<Longrightarrow> set fileRecs \<subseteq> set allRecs \<Longrightarrow>
     (\<forall>m. r \<noteq> Inl (PocoException m)) \<and>
     (\<exists>cs. exported s (map (chain_item env dirPath) cs) s' \<and>
               (\<forall>c \<in> set cs. is_nested env parent c) \<and>
               (r = Inr () \<longrightarrow>
                  (\<forall>fileId \<in> set fileRecs. \<forall>f. getFile env fileId = Inr f \<longrightarrow>
                     [f] \<in> set cs \<and>
                     (getMetaType f = TSK_FS_META_TYPE_DIR \<longrightarrow>
                        (\<forall>c. is_nested env f c \<longrightarrow> f # c \<in> set cs)))))"
proof (induction fuel env dirPath dir s and fuel env dirPath fileRecs s
    arbitrary: r s' and r s' parent allRecs rule: saveDirectoryContents_saveFileRecords.induct)
  case (1 env dirPath dir w report)
  then show ?case by simp
next
  case (2 fuel env dirPath dir w report)
  show ?case
  proof (cases "getFileRecords env (getId dir)")
    case (Inl m)
    with 2(2) show ?thesis using exported_Nil by (auto intro!: exI [of _ "[]"])
  next
    case (Inr recs)
    with 2(2) have "saveFileRecords fuel env dirPath recs (w, report) = Some (r, s')" by simp
    from 2(1) [OF Inr this Inr subset_refl]
    obtain cs where np: "\<forall>m. r \<noteq> Inl (PocoException m)"
      and ex: "exported (w, report) (map (chain_item env dirPath) cs) s'"
      and ne: "\<forall>c \<in> set cs. is_nested env dir c"
      and co: "r = Inr () \<longrightarrow>
                 (\<forall>fileId \<in> set recs. \<forall>f. getFile env fileId = Inr f \<longrightarrow>
                    [f] \<in> set cs \<and>
                    (getMetaType f = TSK_FS_META_TYPE_DIR \<longrightarrow>
                       (\<forall>c. is_nested env f c \<longrightarrow> f # c \<in> set cs)))"
      by blast
    have "c \<in> set cs" if ok: "r = Inr ()" and c: "is_nested env dir c" for c
    proof -
      from c Inr obtain fileId f rest where c_eq: "c = f # rest" and mem: "fileId \<in> set recs"
        and f: "getFile env fileId = Inr f"
        and rest: "rest = [] \<or> getMetaType f = TSK_FS_META_TYPE_DIR \<and> is_nested env f rest"
        by (rule is_nested_cases)
      from co ok mem f have one: "[f] \<in> set cs"
        and deeper: "getMetaType f = TSK_FS_META_TYPE_DIR \<longrightarrow>
                       (\<forall>c. is_nested env f c \<longrightarrow> f # c \<in> set cs)"
        by blast+
      from rest one deeper show ?thesis unfolding c_eq by blast
    qed
    with np ex ne show ?thesis by blast
  qed
next
  case (3 fuel env dirPath w report)
  then show ?case using exported_Nil by (auto intro!: exI [of _ "[]"])
next
  case (4 fuel env dirPath fileId fileRecs w report)

  note IHdir = 4(1) and IHrest = 4(2) and IHcopy = 4(3)
  note run = 4(4) and recs = 4(5)
  from 4(6) have mem: "fileId \<in> set allRecs" and sub: "set fileRecs \<subseteq> set allRecs" by auto
  show ?case
  proof (cases "getFile env fileId")
    case (Inl m)
    with run show ?thesis using exported_Nil by (auto intro!: exI [of _ "[]"])
  next
    case (Inr f)
    let ?p = "dirPath @ [separator env] @ getName f"
    have item: "is_nested env parent [f]"
      by (rule is_nested_child [OF recs mem Inr])
    show ?thesis
    proof (cases "getMetaType f = TSK_FS_META_TYPE_DIR")
      case True
      obtain r1 w1 where cd: "createDirectory env ?p w = (r1, w1)" by (cases "createDirectory env ?p w")
      from createDirectory_cases [OF cd] show ?thesis
      proof (elim disjE conjE exE)
        fix m assume "r1 = Inl (TskException m)" "w1 = w"
        with run Inr True cd show ?thesis
          using exported_Nil by (auto intro!: exI [of _ "[]"])
      next
        assume ok: "r1 = Inr ()" and w1: "w1 = w\<lparr>events := events w @ [CreatedDirectories ?p]\<rparr>"
        have step: "exported (w, report) [(f, ?p)] (w1, report)"
          using True w1 by (simp add: exported_def)
        show ?thesis
        proof (cases "saveDirectoryContents fuel env ?p f (w1, report)")
          case None
          with run Inr True cd ok show ?thesis by simp
        next
          case (Some res)
          obtain r2 s2 where res: "res = (r2, s2)" by (cases res)
          have sdc: "saveDirectoryContents fuel env ?p f (w1, report) = Some (r2, s2)"
            using Some res by simp
          from IHdir [OF Inr True refl cd [symmetric] ok sdc]
          obtain sub2 where np2: "\<forall>m. r2 \<noteq> Inl (PocoException m)"
            and ex2: "exported (w1, report) (map (chain_item env ?p) sub2) s2"
            and ne2: "\<forall>c \<in> set sub2. is_nested env f c"
            and co2: "r2 = Inr () \<longrightarrow> (\<forall>c. is_nested env f c \<longrightarrow> c \<in> set sub2)" by blast
          let ?all2 = "[f] # map ((#) f) sub2"
          have ne2': "\<forall>c \<in> set ?all2. is_nested env parent c"
            using item ne2 is_nested_deeper [OF recs mem Inr True] by auto
          have eq2: "map (chain_item env ?p) sub2 = map (chain_item env dirPath) (map ((#) f) sub2)"
            by (rule chain_item_deeper_map [OF ne2])
          have all2: "map (chain_item env dirPath) ?all2 = [(f, ?p)] @ map (chain_item env ?p) sub2"
            unfolding eq2 by (simp add: chain_item_single)
          have ex12: "exported (w, report) (map (chain_item env dirPath) ?all2) s2"
            by (subst all2) (rule exported_trans [OF step ex2])
          show ?thesis
          proof (cases r2)
            case (Inl e)
            with run Inr True cd ok sdc have "r = Inl e" "s' = s2"
              by (auto split: prod.splits)
            with np2 Inl ex12 ne2' show ?thesis
              by (intro conjI exI [of _ ?all2]) auto
          next
            case (Inr u)
            obtain w2 doc2 where s2: "s2 = (w2, doc2)" by (cases s2)
            from run \<open>getFile env fileId = Inr f\<close> True cd ok sdc Inr s2
            have rest: "saveFileRecords fuel env dirPath fileRecs (w2, doc2) = Some (r, s')"
              by (simp add: Let_def)
            from IHrest [OF \<open>getFile env fileId = Inr f\<close> True refl cd [symmetric] ok sdc
                s2 [THEN arg_cong [where f = "Pair r2"], symmetric] Inr refl rest recs sub]
            obtain rest3 where np3: "\<forall>m. r \<noteq> Inl (PocoException m)"
              and ex3: "exported (w2, doc2) (map (chain_item env dirPath) rest3) s'"
              and ne3: "\<forall>c \<in> set rest3. is_nested env parent c"
              and co3: "r = Inr () \<longrightarrow>
                 (\<forall>fileId \<in> set fileRecs. \<forall>f. getFile env fileId = Inr f \<longrightarrow>
                    [f] \<in> set rest3 \<and>
                    (getMetaType f = TSK_FS_META_TYPE_DIR \<longrightarrow>
                       (\<forall>c. is_nested env f c \<longrightarrow> f # c \<in> set rest3)))"
              by blast
            have "exported (w, report) (map (chain_item env dirPath) (?all2 @ rest3)) s'"
              using exported_trans [OF ex12 [unfolded s2] ex3] by simp
            moreover have "\<forall>c \<in> set (?all2 @ rest3). is_nested env parent c"
              using ne2' ne3 by auto
            moreover have "r = Inr () \<longrightarrow>
                 (\<forall>fileId' \<in> set (fileId # fileRecs). \<forall>f'. getFile env fileId' = Inr f' \<longrightarrow>
                    [f'] \<in> set (?all2 @ rest3) \<and>
                    (getMetaType f' = TSK_FS_META_TYPE_DIR \<longrightarrow>
                       (\<forall>c. is_nested env f' c \<longrightarrow> f' # c \<in> set (?all2 @ rest3))))"
            proof (intro impI ballI allI)
              fix fileId' f'
              assume ok: "r = Inr ()" and mem': "fileId' \<in> set (fileId # fileRecs)"
                and f': "getFile env fileId' = Inr f'"
              show "[f'] \<in> set (?all2 @ rest3) \<and>
                    (getMetaType f' = TSK_FS_META_TYPE_DIR \<longrightarrow>
                       (\<forall>c. is_nested env f' c \<longrightarrow> f' # c \<in> set (?all2 @ rest3)))"
              proof (cases "fileId' = fileId")
                case True
                with f' \<open>getFile env fileId = Inr f\<close> have "f' = f" by simp
                moreover from co2 Inr have "\<forall>c. is_nested env f c \<longrightarrow> c \<in> set sub2"
                  by simp
                ultimately show ?thesis by auto
              next
                case False
                with mem' have "fileId' \<in> set fileRecs" by simp
                with co3 ok f' show ?thesis by auto
              qed
            qed
            ultimately show ?thesis using np3
              by (intro conjI exI [of _ "?all2 @ rest3"])
          qed
        qed
      qed
    next
      case False
      show ?thesis
      proof (cases "copyFile env (events w) (getId f) ?p")
        case (Some m)
        with run Inr False show ?thesis
          using exported_Nil by (auto intro!: exI [of _ "[]"])
      next
        case None
        let ?w1 = "w\<lparr>events := events w @ [CopiedFile (getId f) ?p]\<rparr>"
        have step: "exported (w, report) [(f, ?p)] (?w1, addFileToReport f ?p report)"
          using False by (simp add: exported_def addFileToReport_file)
        from run Inr False None
        have rest: "saveFileRecords fuel env dirPath fileRecs (?w1, addFileToReport f ?p report) = Some (r, s')"
          by (simp add: Let_def)
        from IHcopy [OF Inr False refl None rest recs sub]
        obtain rest3 where np3: "\<forall>m. r \<noteq> Inl (PocoException m)"
          and ex3: "exported (?w1, addFileToReport f ?p report) (map (chain_item env dirPath) rest3) s'"
          and ne3: "\<forall>c \<in> set rest3. is_nested env parent c"
          and co3: "r = Inr () \<longrightarrow>
             (\<forall>fileId \<in> set fileRecs. \<forall>f. getFile env fileId = Inr f \<longrightarrow>
                [f] \<in> set rest3 \<and>
                (getMetaType f = TSK_FS_META_TYPE_DIR \<longrightarrow>
                   (\<forall>c. is_nested env f c \<longrightarrow> f # c \<in> set rest3)))"
          by blast
        have "exported (w, report) (map (chain_item env dirPath) ([f] # rest3)) s'"
          using exported_trans [OF step ex3] by (simp add: chain_item_single)
        moreover have "\<forall>c \<in> set ([f] # rest3). is_nested env parent c"
          using item ne3 by auto
        moreover have "r = Inr () \<longrightarrow>
             (\<forall>fileId' \<in> set (fileId # fileRecs). \<forall>f'. getFile env fileId' = Inr f' \<longrightarrow>
                [f'] \<in> set ([f] # rest3) \<and>
                (getMetaType f' = TSK_FS_META_TYPE_DIR \<longrightarrow>
                   (\<forall>c. is_nested env f' c \<longrightarrow> f' # c \<in> set ([f] # rest3))))"
        proof (intro impI ballI allI)
          fix fileId' f'
          assume ok: "r = Inr ()" and mem': "fileId' \<in> set (fileId # fileRecs)"
            and f': "getFile env fileId' = Inr f'"
          show "[f'] \<in> set ([f] # rest3) \<and>
                (getMetaType f' = TSK_FS_META_TYPE_DIR \<longrightarrow>
                   (\<forall>c. is_nested env f' c \<longrightarrow> f' # c \<in> set ([f] # rest3)))"
          proof (cases "fileId' = fileId")
            case True
            with f' Inr have "f' = f" by simp
            with False show ?thesis by simp
          next
            case False
            with mem' have "fileId' \<in> set fileRecs" by simp
            with co3 ok f' show ?thesis by auto
          qed
        qed
        ultimately show ?thesis using np3
          by (intro conjI exI [of _ "[f] # rest3"])
      qed
    qed
  qed
qed

lemma item_entries_filter:
  "concat (map item_entries items) =
   map (\<lambda>(f, p). SavedFile_element f p)
     (filter (\<lambda>(f, p). getMetaType f \<noteq> TSK_FS_META_TYPE_DIR) items)"
  by (induction items) auto

lemma saveInterestingDirectory_exported:
  assumes run: "saveInterestingDirectory fuel env dir folder (w, doc) = Some (r, w', doc')"
    and ok: "createDirectories env (events w)
               (folder @ [separator env] @ getName dir @ ''_'' @ string_of_nat (getId dir) @
                [separator env] @ getName dir) = None"
  shows "(\<forall>m. r \<noteq> Inl (PocoException m)) \<and>
         (\<exists>cs. (\<forall>c \<in> set cs. is_nested env dir c) \<and>
           exported
             (w\<lparr>events := events w @ [CreatedDirectories
                 (folder @ [separator env] @ getName dir @ ''_'' @ string_of_nat (getId dir) @
                  [separator env] @ getName dir)]\<rparr>,
              addFileToReport dir
                (folder @ [separator env] @ getName dir @ ''_'' @ string_of_nat (getId dir) @
                 [separator env] @ getName dir) doc)
             (map (chain_item env
                (folder @ [separator env] @ getName dir @ ''_'' @ string_of_nat (getId dir) @
                 [separator env] @ getName dir)) cs)
             (w', doc') \<and>
           (r = Inr () \<longrightarrow> (\<forall>c. is_nested env dir c \<longrightarrow> c \<in> set cs)))"
proof -
  let ?top = "folder @ [separator env] @ getName dir @ ''_'' @ string_of_nat (getId dir) @
              [separator env] @ getName dir"
  from ok have cd: "createDirectory env ?top w = (Inr (), w\<lparr>events := events w @ [CreatedDirectories ?top]\<rparr>)"
    by (simp add: createDirectory_def)
  with run have "saveDirectoryContents fuel env ?top dir
      (w\<lparr>events := events w @ [CreatedDirectories ?top]\<rparr>, addFileToReport dir ?top doc) = Some (r, w', doc')"
    by (simp add: Let_def)
  from saveDirectoryContents_exported(1) [OF this] show ?thesis by blast
qed

text \<open>
  Claim C5. A directory hit with name \<open>n\<close> and id \<open>i\<close> is created at
  \<^verbatim>\<open><set folder>/<n>_<i>/<n>\<close>. Everything the descent then creates or copies lies at that
  path followed by the plain names of a chain of nested files: a nested subdirectory is
  created under its name without \<^verbatim>\<open>_<id>\<close>, a nested file is copied under its name
  without the id. When the descent returns normally, every chain of nested files has its
  event there: no nested subdirectory or file is left out.
\<close>

theorem saveInterestingDirectory_paths:
  assumes "saveInterestingDirectory fuel env dir fileSetFolderPath (w, doc) = Some (r, w', doc')"
    and "createDirectories env (events w)
           (fileSetFolderPath @ [separator env] @ getName dir @ ''_'' @ string_of_nat (getId dir) @
            [separator env] @ getName dir) = None"
  shows "\<exists>cs. (\<forall>c \<in> set cs. is_nested env dir c) \<and>
           events w' = events w @
             CreatedDirectories
               (fileSetFolderPath @ [separator env] @ getName dir @ ''_'' @
                string_of_nat (getId dir) @ [separator env] @ getName dir) #
             map (\<lambda>c. if getMetaType (last c) = TSK_FS_META_TYPE_DIR
                      then CreatedDirectories
                             (plain_path env
                                (fileSetFolderPath @ [separator env] @ getName dir @ ''_'' @
                                 string_of_nat (getId dir) @ [separator env] @ getName dir) c)
                      else CopiedFile (getId (last c))
                             (plain_path env
                                (fileSetFolderPath @ [separator env] @ getName dir @ ''_'' @
                                 string_of_nat (getId dir) @ [separator env] @ getName dir) c)) cs \<and>
           (r = Inr () \<longrightarrow> (\<forall>c. is_nested env dir c \<longrightarrow> c \<in> set cs))"
proof -
  from saveInterestingDirectory_exported [OF assms]
  obtain cs where n: "\<forall>c \<in> set cs. is_nested env dir c"
    and a: "r = Inr () \<longrightarrow> (\<forall>c. is_nested env dir c \<longrightarrow> c \<in> set cs)"
    and e: "exported
             (w\<lparr>events := events w @ [CreatedDirectories
                 (fileSetFolderPath @ [separator env] @ getName dir @ ''_'' @ string_of_nat (getId dir) @
                  [separator env] @ getName dir)]\<rparr>,
              addFileToReport dir
                (fileSetFolderPath @ [separator env] @ getName dir @ ''_'' @ string_of_nat (getId dir) @
                 [separator env] @ getName dir) doc)
             (map (chain_item env
                (fileSetFolderPath @ [separator env] @ getName dir @ ''_'' @ string_of_nat (getId dir) @
                 [separator env] @ getName dir)) cs)
             (w', doc')" by blast
  from e n a show ?thesis
    by (intro exI [of _ cs]) (simp add: exported_def chain_item_def comp_def)
qed

theorem saveInterestingDirectory_paths_witness:
  "saveInterestingDirectory 2 (demo_env [] [] []) (demo_file 42 ''Photos'' TSK_FS_META_TYPE_DIR)
     ''setA'' (demo_start, Element ''InterestingFileSet'' [] []) =
     Some (Inr (), \<lparr>events = demo_photos_events, logged = []\<rparr>, demo_photos_report) \<and>
   (\<exists>cs. (\<forall>c \<in> set cs. is_nested (demo_env [] [] []) (demo_file 42 ''Photos'' TSK_FS_META_TYPE_DIR) c) \<and>
      demo_photos_events =
        CreatedDirectories ''setA/Photos_42/Photos'' #
        map (\<lambda>c. if getMetaType (last c) = TSK_FS_META_TYPE_DIR
                 then CreatedDirectories (plain_path (demo_env [] [] []) ''setA/Photos_42/Photos'' c)
                 else CopiedFile (getId (last c))
                        (plain_path (demo_env [] [] []) ''setA/Photos_42/Photos'' c)) cs \<and>
      (\<forall>c. is_nested (demo_env [] [] []) (demo_file 42 ''Photos'' TSK_FS_META_TYPE_DIR) c \<longrightarrow>
           c \<in> set cs)) \<and>
   is_nested (demo_env [] [] []) (demo_file 42 ''Photos'' TSK_FS_META_TYPE_DIR)
     [demo_file 44 ''sub'' TSK_FS_META_TYPE_DIR, demo_file 45 ''b.jpg'' TSK_FS_META_TYPE_REG]"
proof -
  let ?E = "demo_env [] [] []"
  let ?D = "demo_file 42 ''Photos'' TSK_FS_META_TYPE_DIR"
  have n42: "string_of_nat 42 = ''42''" by code_simp
  have nested: "is_nested ?E ?D
     [demo_file 44 ''sub'' TSK_FS_META_TYPE_DIR, demo_file 45 ''b.jpg'' TSK_FS_META_TYPE_REG]"
    by code_simp
  have h1: "saveInterestingDirectory 2 ?E ?D ''setA'' (demo_start, Element ''InterestingFileSet'' [] []) =
     Some (Inr (), \<lparr>events = demo_photos_events, logged = []\<rparr>, demo_photos_report)"
    by code_simp
  have h2: "createDirectories ?E (events demo_start)
           (''setA'' @ [separator ?E] @ getName ?D @ ''_'' @ string_of_nat (getId ?D) @
            [separator ?E] @ getName ?D) = None"
    by (simp add: demo_env_def)
  have top: "''setA'' @ [separator ?E] @ getName ?D @ ''_'' @ string_of_nat (getId ?D) @
            [separator ?E] @ getName ?D = ''setA/Photos_42/Photos''"
    by (simp add: demo_env_def demo_file_def n42)
  have ev: "events demo_start = []" by (simp add: demo_start_def)
  from saveInterestingDirectory_paths [OF h1 h2] h1 nested show ?thesis
    unfolding top ev by simp
qed

text \<open>
  Claim C10. A directory hit adds one \<^verbatim>\<open>SavedDirectory\<close> entry, for the directory of the hit
  itself. Of the nested items, each one leaves its file-system event (a created directory
  or a copied file), and exactly the copied files add an entry, a \<^verbatim>\<open>SavedFile\<close> one, in the
  order of the copies; a nested subdirectory adds none.
\<close>

theorem directory_hit_entries:
  assumes "getFile env (getObjectID fileHit) = Inr dir"
    and "getMetaType dir = TSK_FS_META_TYPE_DIR"
    and "createDirectories env (events w)
           (fileSetFolderPath @ [separator env] @ getName dir @ ''_'' @ string_of_nat (getId dir) @
            [separator env] @ getName dir) = None"
    and "saveFileHit fuel env fileSetFolderPath fileHit (w, doc) = Some (r, w', doc')"
  shows "\<exists>items.
           events w' = events w @
             CreatedDirectories
               (fileSetFolderPath @ [separator env] @ getName dir @ ''_'' @
                string_of_nat (getId dir) @ [separator env] @ getName dir) #
             map (\<lambda>(f, p). if getMetaType f = TSK_FS_META_TYPE_DIR then CreatedDirectories p
                           else CopiedFile (getId f) p) items \<and>
           doc' = foldl appendChild doc
             (SavedDirectory_element dir
                (fileSetFolderPath @ [separator env] @ getName dir @ ''_'' @
                 string_of_nat (getId dir) @ [separator env] @ getName dir) #
              map (\<lambda>(f, p). SavedFile_element f p)
                (filter (\<lambda>(f, p). getMetaType f \<noteq> TSK_FS_META_TYPE_DIR) items))"
proof -
  let ?top = "fileSetFolderPath @ [separator env] @ getName dir @ ''_'' @
                string_of_nat (getId dir) @ [separator env] @ getName dir"
  from assms(1,2,4) have run: "saveInterestingDirectory fuel env dir fileSetFolderPath (w, doc) = Some (r, w', doc')"
    by simp
  from saveInterestingDirectory_exported [OF run assms(3)]
  obtain cs where e: "exported
             (w\<lparr>events := events w @ [CreatedDirectories ?top]\<rparr>, addFileToReport dir ?top doc)
             (map (chain_item env ?top) cs) (w', doc')" by blast
  have ev: "item_event = (\<lambda>(f, p). if getMetaType f = TSK_FS_META_TYPE_DIR then CreatedDirectories p
                           else CopiedFile (getId f) p)"
    by (auto simp: fun_eq_iff)
  define items where "items = map (chain_item env ?top) cs"
  from e have 1: "events w' = events w @ CreatedDirectories ?top # map item_event items"
    and 2: "doc' = foldl appendChild (addFileToReport dir ?top doc) (concat (map item_entries items))"
    unfolding exported_def items_def by simp_all
  from 1 2 show ?thesis
    by (intro exI [of _ items])
       (simp add: addFileToReport_dir [OF assms(2)] item_entries_filter ev)
qed


theorem directory_hit_entries_witness:
  "saveFileHit 2 (demo_env [] [] []) ''setA'' (demo_hit 100 42 ''setA'' ''d'')
     (demo_start, Element ''InterestingFileSet'' [] []) =
     Some (Inr (), \<lparr>events = demo_photos_events, logged = []\<rparr>, demo_photos_report) \<and>
   (\<exists>items.
      demo_photos_events =
        CreatedDirectories ''setA/Photos_42/Photos'' #
        map (\<lambda>(f, p). if getMetaType f = TSK_FS_META_TYPE_DIR then CreatedDirectories p
                      else CopiedFile (getId f) p) items \<and>
      demo_photos_report =
        foldl appendChild (Element ''InterestingFileSet'' [] [])
          (SavedDirectory_element (demo_file 42 ''Photos'' TSK_FS_META_TYPE_DIR) ''setA/Photos_42/Photos'' #
           map (\<lambda>(f, p). SavedFile_element f p)
             (filter (\<lambda>(f, p). getMetaType f \<noteq> TSK_FS_META_TYPE_DIR) items)))"
proof -
  let ?E = "demo_env [] [] []"
  let ?D = "demo_file 42 ''Photos'' TSK_FS_META_TYPE_DIR"
  let ?H = "demo_hit 100 42 ''setA'' ''d''"
  have n42: "string_of_nat 42 = ''42''" by code_simp
  have h1: "getFile ?E (getObjectID ?H) = Inr ?D"
    by (simp add: demo_env_def demo_hit_def demo_getFile_def)
  have h2: "getMetaType ?D = TSK_FS_META_TYPE_DIR" by (simp add: demo_file_def)
  have h3: "createDirectories ?E (events demo_start)
           (''setA'' @ [separator ?E] @ getName ?D @ ''_'' @ string_of_nat (getId ?D) @
            [separator ?E] @ getName ?D) = None"
    by (simp add: demo_env_def)
  have h4: "saveFileHit 2 ?E ''setA'' ?H (demo_start, Element ''InterestingFileSet'' [] []) =
     Some (Inr (), \<lparr>events = demo_photos_events, logged = []\<rparr>, demo_photos_report)"
    by code_simp
  have top: "''setA'' @ [separator ?E] @ getName ?D @ ''_'' @ string_of_nat (getId ?D) @
            [separator ?E] @ getName ?D = ''setA/Photos_42/Photos''"
    by (simp add: demo_env_def demo_file_def n42)
  have ev: "events demo_start = []" by (simp add: demo_start_def)
  from directory_hit_entries [OF h1 h2 h3 h4] h4 show ?thesis
    unfolding top ev by simp
qed

section \<open>The hits of one set\<close>

lemma foldl_appendChild_Element:
  "foldl appendChild (Element tag attrs children) es = Element tag attrs (children @ es)"
  by (induction es arbitrary: children) auto

lemma foldl_appendChild_append:
  "foldl appendChild (foldl appendChild doc xs) ys = foldl appendChild doc (xs @ ys)"
  by simp

lemma item_event_no_report: "\<not> is_report_event (item_event item)"
  by (cases item) auto

text \<open>What one hit does: it never leaves with a Poco exception, it only adds events (none
  of them a written report) and report entries, at least one entry when it returns normally,
  and it logs nothing.\<close>

lemma saveFileHit_adds:
  assumes "saveFileHit fuel env folder fileHit (w, doc) = Some (r, w', doc')"
  shows "(\<forall>m. r \<noteq> Inl (PocoException m)) \<and>
         (\<exists>evs es. events w' = events w @ evs \<and> logged w' = logged w \<and>
            (\<forall>e \<in> set evs. \<not> is_report_event e) \<and>
            doc' = foldl appendChild doc es \<and> (r = Inr () \<longrightarrow> es \<noteq> []))"
proof (cases "getFile env (getObjectID fileHit)")
  case (Inl m)
  with assms show ?thesis
    by (auto intro!: exI [of _ "[]"])
next
  case (Inr f)
  show ?thesis
  proof (cases "getMetaType f = TSK_FS_META_TYPE_DIR")
    case False
    let ?p = "c_str folder @ [separator env] @ c_str (savedFileName f)"
    show ?thesis
    proof (cases "copyFile env (events w) (getId f) ?p")
      case (Some m)
      with assms Inr False show ?thesis
        by (auto simp: Let_def intro!: exI [of _ "[]"])
    next
      case None
      with assms Inr False
      have "r = Inr ()" "events w' = events w @ [CopiedFile (getId f) ?p]" "logged w' = logged w"
        "doc' = foldl appendChild doc [SavedFile_element f ?p]"
        by (auto simp: Let_def addFileToReport_file)
      then show ?thesis
        by (intro conjI exI [of _ "[CopiedFile (getId f) ?p]"] exI [of _ "[SavedFile_element f ?p]"]) auto
    qed
  next
    case True
    let ?top = "folder @ [separator env] @ getName f @ ''_'' @ string_of_nat (getId f) @
                [separator env] @ getName f"
    from assms Inr True
    have run: "saveInterestingDirectory fuel env f folder (w, doc) = Some (r, w', doc')" by simp
    show ?thesis
    proof (cases "createDirectories env (events w) ?top")
      case (Some m)
      with run show ?thesis
        by (auto simp: Let_def createDirectory_def intro!: exI [of _ "[]"])
    next
      case None
      from saveInterestingDirectory_exported [OF run None]
      obtain cs where np: "\<forall>m. r \<noteq> Inl (PocoException m)"
        and e: "exported (w\<lparr>events := events w @ [CreatedDirectories ?top]\<rparr>, addFileToReport f ?top doc)
                  (map (chain_item env ?top) cs) (w', doc')" by blast
      define items where "items = map (chain_item env ?top) cs"
      from e have 1: "events w' = events w @ (CreatedDirectories ?top # map item_event items)"
        and 2: "logged w' = logged w"
        and 3: "doc' = foldl appendChild doc (SavedDirectory_element f ?top # concat (map item_entries items))"
        unfolding exported_def items_def by (simp_all add: addFileToReport_dir [OF True])
      have 4: "\<forall>e \<in> set (CreatedDirectories ?top # map item_event items). \<not> is_report_event e"
        by (auto simp: item_event_no_report)
      from np 1 2 3 4 show ?thesis
        by (intro conjI exI [of _ "CreatedDirectories ?top # map item_event items"]
              exI [of _ "SavedDirectory_element f ?top # concat (map item_entries items)"]) auto
    qed
  qed
qed


lemma saveFileHits_adds:
  assumes "saveFileHits fuel env folder fileHits (rc, w, doc) = Some (r, rc', w', doc')"
  shows "r = Inr () \<and> (rc' = rc \<or> rc' = FAIL) \<and>
         (\<exists>evs es. events w' = events w @ evs \<and> (\<forall>e \<in> set evs. \<not> is_report_event e) \<and>
            doc' = foldl appendChild doc es)"
  using assms
proof (induction fileHits arbitrary: rc w doc)
  case Nil
  then show ?case by (auto intro!: exI [of _ "[]"])
next
  case (Cons h hs)
  from Cons.prems obtain rh wh dh where
    hit: "saveFileHit fuel env folder h (w, doc) = Some (rh, wh, dh)"
    by (cases "saveFileHit fuel env folder h (w, doc)") auto
  from saveFileHit_adds [OF hit] obtain evs1 es1 where
    np: "\<forall>m. rh \<noteq> Inl (PocoException m)" and
    1: "events wh = events w @ evs1" "\<forall>e \<in> set evs1. \<not> is_report_event e"
       "dh = foldl appendChild doc es1" by blast
  show ?case
  proof (cases rh)
    case (Inr u)
    with Cons.prems hit
    have rest: "saveFileHits fuel env folder hs (rc, wh, dh) = Some (r, rc', w', doc')" by simp
    from Cons.IH [OF rest] obtain evs2 es2 where
      2: "r = Inr ()" "rc' = rc \<or> rc' = FAIL" "events w' = events wh @ evs2"
         "\<forall>e \<in> set evs2. \<not> is_report_event e" "doc' = foldl appendChild dh es2" by blast
    with 1 show ?thesis
      by (intro conjI exI [of _ "evs1 @ evs2"] exI [of _ "es1 @ es2"]) auto
  next
    case (Inl e)
    with np obtain m where e: "e = TskException m" by (cases e) auto
    with Cons.prems hit Inl
    have rest: "saveFileHits fuel env folder hs (FAIL, wh\<lparr>logged := logged wh @ [LOGERROR m]\<rparr>, dh) =
                Some (r, rc', w', doc')" by simp
    from Cons.IH [OF rest] obtain evs2 es2 where
      2: "r = Inr ()" "rc' = FAIL" "events w' = events wh @ evs2"
         "\<forall>e \<in> set evs2. \<not> is_report_event e" "doc' = foldl appendChild dh es2" by auto
    with 1 show ?thesis
      by (intro conjI exI [of _ "evs1 @ evs2"] exI [of _ "es1 @ es2"]) auto
  qed
qed







section \<open>One set, and the run over the sets\<close>

lemma saveFiles_after_hits:
  assumes "createDirectories env (events w) (outputFolderPath env @ [separator env] @ setName) = None"
    and "saveFiles fuel env setName setDescription fileHits (rc, w) = Some (r, rc', w')"
  shows "\<exists>wh doch.
           saveFileHits fuel env (outputFolderPath env @ [separator env] @ setName) fileHits
             (rc,
              w\<lparr>events := events w @
                   [CreatedDirectories (outputFolderPath env @ [separator env] @ setName)]\<rparr>,
              Element ''InterestingFileSet''
                [(''name'', setName), (''description'', setDescription)] []) =
             Some (Inr (), rc', wh, doch) \<and>
           (case openFileStream env (events wh)
                   (outputFolderPath env @ [separator env] @ setName @ [separator env] @
                    setName @ ''.xml'') of
              None \<Rightarrow>
                r = Inr () \<and>
                w' = wh\<lparr>events := events wh @
                       [WroteReport
                          (outputFolderPath env @ [separator env] @ setName @ [separator env] @
                           setName @ ''.xml'') doch]\<rparr>
            | Some m \<Rightarrow> r = Inl (PocoException m) \<and> w' = wh)"
proof -
  let ?folder = "outputFolderPath env @ [separator env] @ setName"
  let ?w1 = "w\<lparr>events := events w @ [CreatedDirectories ?folder]\<rparr>"
  let ?doc = "Element ''InterestingFileSet'' [(''name'', setName), (''description'', setDescription)] []"
  from assms(1) have cd: "createDirectory env ?folder w = (Inr (), ?w1)"
    by (simp add: createDirectory_def)
  show ?thesis
  proof (cases "saveFileHits fuel env ?folder fileHits (rc, ?w1, ?doc)")
    case None
    with assms(2) cd show ?thesis by (simp add: Let_def)
  next
    case (Some res)
    obtain rh rch wh doch where res: "res = (rh, rch, wh, doch)" by (cases res)
    from saveFileHits_adds [OF Some [unfolded res]] have rh: "rh = Inr ()" by simp
    from assms(2) cd Some res rh show ?thesis
      by (auto simp: Let_def split: option.splits)
  qed
qed

text \<open>
  Claim C2, amended. For every set whose folder was created, the loop over its hits
  returns normally whatever the hits did, and the report it leaves is then written to
  \<^verbatim>\<open><output folder>/<set name>/<set name>.xml\<close>. When that file cannot be opened, the
  Poco exception leaves \<open>saveFiles\<close>. (The name ends in \<^verbatim>\<open>.xml\<close>, not in \<^verbatim>\<open>.manifest\<close>:
  see the counterexample, where the only report written is \<^verbatim>\<open>out/setA/setA.xml\<close>.)
\<close>

theorem saveFiles_writes_report:
  assumes "createDirectories env (events w) (outputFolderPath env @ [separator env] @ setName) = None"
    and "saveFiles fuel env setName setDescription fileHits (rc, w) = Some (r, rc', w')"
  shows "\<exists>wh entries.
           saveFileHits fuel env (outputFolderPath env @ [separator env] @ setName) fileHits
             (rc,
              w\<lparr>events := events w @
                   [CreatedDirectories (outputFolderPath env @ [separator env] @ setName)]\<rparr>,
              Element ''InterestingFileSet''
                [(''name'', setName), (''description'', setDescription)] []) =
             Some (Inr (), rc', wh,
                   Element ''InterestingFileSet''
                     [(''name'', setName), (''description'', setDescription)] entries) \<and>
           (case openFileStream env (events wh)
                   (outputFolderPath env @ [separator env] @ setName @ [separator env] @
                    setName @ ''.xml'') of
              None \<Rightarrow>
                r = Inr () \<and>
                w' = wh\<lparr>events := events wh @
                       [WroteReport
                          (outputFolderPath env @ [separator env] @ setName @ [separator env] @
                           setName @ ''.xml'')
                          (Element ''InterestingFileSet''
                             [(''name'', setName), (''description'', setDescription)] entries)]\<rparr>
            | Some m \<Rightarrow> r = Inl (PocoException m) \<and> w' = wh)"
proof -
  from saveFiles_after_hits [OF assms] obtain wh doch where
    hits: "saveFileHits fuel env (outputFolderPath env @ [separator env] @ setName) fileHits
             (rc,
              w\<lparr>events := events w @
                   [CreatedDirectories (outputFolderPath env @ [separator env] @ setName)]\<rparr>,
              Element ''InterestingFileSet''
                [(''name'', setName), (''description'', setDescription)] []) =
             Some (Inr (), rc', wh, doch)"
    and wr: "case openFileStream env (events wh)
                   (outputFolderPath env @ [separator env] @ setName @ [separator env] @
                    setName @ ''.xml'') of
              None \<Rightarrow>
                r = Inr () \<and>
                w' = wh\<lparr>events := events wh @
                       [WroteReport
                          (outputFolderPath env @ [separator env] @ setName @ [separator env] @
                           setName @ ''.xml'') doch]\<rparr>
            | Some m \<Rightarrow> r = Inl (PocoException m) \<and> w' = wh" by blast
  from saveFileHits_adds [OF hits] obtain entries where
    "doch = Element ''InterestingFileSet''
              [(''name'', setName), (''description'', setDescription)] entries"
    by (auto simp: foldl_appendChild_Element)
  with hits wr show ?thesis by blast
qed

theorem saveFiles_writes_report_witness:
  "createDirectories (demo_env [] [7] []) (events demo_start)
     (outputFolderPath (demo_env [] [7] []) @ [separator (demo_env [] [7] [])] @ ''setA'') = None \<and>
   saveFiles 1 (demo_env [] [7] []) ''setA'' ''d''
     [demo_hit 100 5 ''setA'' ''d'', demo_hit 102 7 ''setA'' ''d''] (OK, demo_start) =
   Some (Inr (), FAIL,
     \<lparr>events = [CreatedDirectories ''out/setA'', CopiedFile 5 ''out/setA/report_5.txt'',
                WroteReport ''out/setA/setA.xml''
                  (demo_set_report ''setA'' ''d'' [demo_entry ''out/setA/report_5.txt'' ''report.txt''])],
        logged = [LOGERROR ''copy failed'']\<rparr>) \<and>
   (\<exists>wh entries.
      saveFileHits 1 (demo_env [] [7] []) ''out/setA''
        [demo_hit 100 5 ''setA'' ''d'', demo_hit 102 7 ''setA'' ''d'']
        (OK, \<lparr>events = [CreatedDirectories ''out/setA''], logged = []\<rparr>,
         demo_set_report ''setA'' ''d'' []) =
        Some (Inr (), FAIL, wh, demo_set_report ''setA'' ''d'' entries) \<and>
      \<lparr>events = [CreatedDirectories ''out/setA'', CopiedFile 5 ''out/setA/report_5.txt'',
                WroteReport ''out/setA/setA.xml''
                  (demo_set_report ''setA'' ''d'' [demo_entry ''out/setA/report_5.txt'' ''report.txt''])],
        logged = [LOGERROR ''copy failed'']\<rparr> =
      wh\<lparr>events := events wh @
           [WroteReport ''out/setA/setA.xml'' (demo_set_report ''setA'' ''d'' entries)]\<rparr>)"
proof -
  let ?E = "demo_env [] [7] []"
  have h1: "createDirectories ?E (events demo_start) (outputFolderPath ?E @ [separator ?E] @ ''setA'') = None"
    by (simp add: demo_env_def)
  have h2: "saveFiles 1 ?E ''setA'' ''d''
     [demo_hit 100 5 ''setA'' ''d'', demo_hit 102 7 ''setA'' ''d''] (OK, demo_start) =
   Some (Inr (), FAIL,
     \<lparr>events = [CreatedDirectories ''out/setA'', CopiedFile 5 ''out/setA/report_5.txt'',
                WroteReport ''out/setA/setA.xml''
                  (demo_set_report ''setA'' ''d'' [demo_entry ''out/setA/report_5.txt'' ''report.txt''])],
        logged = [LOGERROR ''copy failed'']\<rparr>)"
    by code_simp
  from saveFiles_writes_report [OF h1 h2] h1 h2 show ?thesis
    by (simp add: demo_env_def demo_start_def demo_set_report_def)
qed

theorem saveFiles_report_path_counterexample:
  "saveFiles 1 (demo_env [] [] []) ''setA'' ''d'' [demo_hit 100 5 ''setA'' ''d''] (OK, demo_start) =
   Some (Inr (), OK,
     \<lparr>events = [CreatedDirectories ''out/setA'', CopiedFile 5 ''out/setA/report_5.txt'',
                WroteReport ''out/setA/setA.xml''
                  (demo_set_report ''setA'' ''d'' [demo_entry ''out/setA/report_5.txt'' ''report.txt''])],
        logged = []\<rparr>) \<and>
   ''out/setA/setA.xml'' \<noteq>
     outputFolderPath (demo_env [] [] []) @ [separator (demo_env [] [] [])] @ ''setA'' @
     [separator (demo_env [] [] [])] @ ''setA'' @ ''.manifest''"
  by code_simp


lemma saveFiles_folder_failure:
  assumes "createDirectories env (events w) (outputFolderPath env @ [separator env] @ setName) = Some m"
  shows "saveFiles fuel env setName setDescription fileHits (rc, w) =
         Some (Inl (TskException
                 (wideLiteralOutput env @ outputFolderPath env @ [CHR 0x27] @ '' : '' @ m)), rc, w)"
  using assms by (simp add: createDirectory_def Let_def)

lemma saveFiles_cases:
  assumes "saveFiles fuel env setName setDescription fileHits (rc, w) = Some (r, rc', w')"
  shows "(createDirectories env (events w) (outputFolderPath env @ [separator env] @ setName) \<noteq> None \<and>
          (\<exists>m. r = Inl (TskException m)) \<and> events w' = events w) \<or>
         (\<exists>mid. (\<forall>e \<in> set mid. \<not> is_report_event e) \<and>
            ((\<exists>entries. r = Inr () \<and>
                events w' = events w @
                  CreatedDirectories (outputFolderPath env @ [separator env] @ setName) # mid @
                  [WroteReport
                     (outputFolderPath env @ [separator env] @ setName @ [separator env] @
                      setName @ ''.xml'')
                     (Element ''InterestingFileSet''
                        [(''name'', setName), (''description'', setDescription)] entries)]) \<or>
             ((\<exists>m. r = Inl (PocoException m)) \<and>
                events w' = events w @
                  CreatedDirectories (outputFolderPath env @ [separator env] @ setName) # mid)))"
proof (cases "createDirectories env (events w) (outputFolderPath env @ [separator env] @ setName)")
  case (Some m)
  have "saveFiles fuel env setName setDescription fileHits (rc, w) =
        Some (Inl (TskException
                 (wideLiteralOutput env @ outputFolderPath env @ [CHR 0x27] @ '' : '' @ m)), rc, w)"
    by (rule saveFiles_folder_failure [OF Some])
  with assms Some show ?thesis by (auto simp del: saveFiles.simps)
next
  case None
  from saveFiles_after_hits [OF None assms]
  obtain wh doch where
    hits: "saveFileHits fuel env (outputFolderPath env @ [separator env] @ setName) fileHits
             (rc, w\<lparr>events := events w @
                   [CreatedDirectories (outputFolderPath env @ [separator env] @ setName)]\<rparr>,
              Element ''InterestingFileSet''
                [(''name'', setName), (''description'', setDescription)] []) =
             Some (Inr (), rc', wh, doch)"
    and wr: "case openFileStream env (events wh)
                   (outputFolderPath env @ [separator env] @ setName @ [separator env] @
                    setName @ ''.xml'') of
              None \<Rightarrow>
                r = Inr () \<and>
                w' = wh\<lparr>events := events wh @
                       [WroteReport
                          (outputFolderPath env @ [separator env] @ setName @ [separator env] @
                           setName @ ''.xml'') doch]\<rparr>
            | Some m \<Rightarrow> r = Inl (PocoException m) \<and> w' = wh" by blast
  from saveFileHits_adds [OF hits] obtain mid entries where
    mid: "events wh = events w @ CreatedDirectories (outputFolderPath env @ [separator env] @ setName) # mid"
      "\<forall>e \<in> set mid. \<not> is_report_event e"
      "doch = Element ''InterestingFileSet''
                [(''name'', setName), (''description'', setDescription)] entries"
    by (auto simp: foldl_appendChild_Element)
  show ?thesis
  proof (cases "openFileStream env (events wh)
                   (outputFolderPath env @ [separator env] @ setName @ [separator env] @
                    setName @ ''.xml'')")
    case None
    with wr mid show ?thesis
      by (intro disjI2 exI [of _ mid]) auto
  next
    case (Some m)
    with wr mid show ?thesis
      by (intro disjI2 exI [of _ mid]) auto
  qed
qed

lemma saveFileSets_append:
  "saveFileSets fuel env fileSetHits (xs @ ys) s =
     (case saveFileSets fuel env fileSetHits xs s of
        None \<Rightarrow> None
      | Some (Inl e, s') \<Rightarrow> Some (Inl e, s')
      | Some (Inr u, s') \<Rightarrow> saveFileSets fuel env fileSetHits ys s')"
proof (induction fuel env fileSetHits xs s rule: saveFileSets.induct)
  case (1 fuel env fileSetHits returnCode w)
  then show ?case by simp
next
  case (2 fuel env fileSetHits fileSet fileSets returnCode w)
  then show ?case
    by (auto split: option.splits sum.splits prod.splits)
qed

text \<open>The return code is only ever set to \<^verbatim>\<open>FAIL\<close>: once a hit has failed it stays so
  through the rest of the set and the sets after it.\<close>

lemma saveFiles_returnCode:
  assumes "saveFiles fuel env setName setDescription fileHits (rc, w) = Some (r, rc', w')"
  shows "rc' = rc \<or> rc' = FAIL"
proof (cases "createDirectories env (events w) (outputFolderPath env @ [separator env] @ setName)")
  case (Some m)
  have "saveFiles fuel env setName setDescription fileHits (rc, w) =
        Some (Inl (TskException
                 (wideLiteralOutput env @ outputFolderPath env @ [CHR 0x27] @ '' : '' @ m)), rc, w)"
    by (rule saveFiles_folder_failure [OF Some])
  with assms show ?thesis by (simp del: saveFiles.simps)
next
  case None
  from saveFiles_after_hits [OF None assms] obtain wh doch where
    "saveFileHits fuel env (outputFolderPath env @ [separator env] @ setName) fileHits
       (rc, w\<lparr>events := events w @
               [CreatedDirectories (outputFolderPath env @ [separator env] @ setName)]\<rparr>,
        Element ''InterestingFileSet'' [(''name'', setName), (''description'', setDescription)] []) =
     Some (Inr (), rc', wh, doch)" by blast
  from saveFileHits_adds [OF this] show ?thesis by blast
qed

lemma saveFileSets_returnCode:
  "saveFileSets fuel env fileSetHits fileSets (rc, w) = Some (r, rc', w') \<Longrightarrow>
   rc' = rc \<or> rc' = FAIL"
proof (induction fileSets arbitrary: rc w)
  case Nil
  then show ?case by simp
next
  case (Cons fileSet fileSets)
  let ?hits = "map snd (equal_range (fst fileSet) fileSetHits)"
  from Cons.prems obtain r1 rc1 w1 where
    one: "saveFiles fuel env (fst fileSet) (snd fileSet) ?hits (rc, w) = Some (r1, rc1, w1)"
    by (cases "saveFiles fuel env (fst fileSet) (snd fileSet) ?hits (rc, w)")
       (auto simp del: saveFiles.simps)
  note rc1 = saveFiles_returnCode [OF one]
  show ?case
  proof (cases r1)
    case (Inl e)
    with Cons.prems one rc1 show ?thesis by (auto simp del: saveFiles.simps)
  next
    case (Inr u)
    with Cons.prems one
    have "saveFileSets fuel env fileSetHits fileSets (rc1, w1) = Some (r, rc', w')"
      by (simp del: saveFiles.simps)
    from Cons.IH [OF this] rc1 show ?thesis by auto
  qed
qed

text \<open>
  Claim C8. When the output folder cannot be created, the run does nothing else: the
  exception is logged, no event is added (no set folder, no copy, no report), and
  \<open>report\<close> returns \<^verbatim>\<open>FAIL\<close>, whatever the depth allowed.
\<close>

theorem report_root_failure:
  assumes "createDirectories env (events w) (outputFolderPath env) = Some m"
  shows "report fuel env w =
         Some (Inr FAIL,
               w\<lparr>logged := logged w @
                    [LOGINFO ''SaveInterestingFilesModule save operations started'',
                     LOGERROR (wideLiteralOutput env @ outputFolderPath env @ [CHR 0x27] @ '' : '' @ m),
                     LOGINFO ''SaveInterestingFilesModule save operations finished'']\<rparr>)"
  using assms by (simp add: report_def createDirectory_def)

theorem report_root_failure_witness:
  "createDirectories (demo_env [''out''] [] [demo_hit 100 5 ''setA'' ''d'']) (events demo_start)
     (outputFolderPath (demo_env [''out''] [] [demo_hit 100 5 ''setA'' ''d''])) = Some ''denied'' \<and>
   report 0 (demo_env [''out''] [] [demo_hit 100 5 ''setA'' ''d'']) demo_start =
     Some (Inr FAIL,
           \<lparr>events = [],
            logged = [LOGINFO ''SaveInterestingFilesModule save operations started'',
                      LOGERROR (''0x4a7c30'' @ ''out'' @ [CHR 0x27] @ '' : denied''),
                      LOGINFO ''SaveInterestingFilesModule save operations finished'']\<rparr>)"
proof -
  let ?E = "demo_env [''out''] [] [demo_hit 100 5 ''setA'' ''d'']"
  have h: "createDirectories ?E (events demo_start) (outputFolderPath ?E) = Some ''denied''"
    by (simp add: demo_env_def)
  from report_root_failure [OF h, of 0] h show ?thesis
    by (simp add: demo_env_def demo_start_def)
qed

text \<open>
  Claim C1, amended. When the folder of one set cannot be created, the exception leaves
  \<open>saveFiles\<close> and the loop over the sets and is caught by \<open>report\<close>: the run returns
  \<^verbatim>\<open>FAIL\<close> with exactly the events of the sets before that one in name order. That set
  and every set after it are skipped. (As stated, with the other sets still processed,
  the claim fails: in the counterexample the folder of \<^verbatim>\<open>setA\<close> cannot be created, that of
  \<^verbatim>\<open>setB\<close> could be, and the run ends with the output folder alone.)
\<close>

theorem set_folder_failure_ends_run:
  assumes root: "createDirectories env (events w) (outputFolderPath env) = None"
    and grouped: "groupFileSetHits (getArtifacts env) ([], [],
                    w\<lparr>logged := logged w @
                         [LOGINFO ''SaveInterestingFilesModule save operations started''],
                       events := events w @ [CreatedDirectories (outputFolderPath env)]\<rparr>) =
                  (before @ fileSet # after, fileSetHits, wg)"
    and before: "saveFileSets fuel env fileSetHits before (OK, wg) = Some (Inr (), rc1, w1)"
    and fail: "createDirectories env (events w1)
                 (outputFolderPath env @ [separator env] @ fst fileSet) = Some m"
  shows "report fuel env w =
         Some (Inr FAIL,
               w1\<lparr>logged := logged w1 @
                    [LOGERROR (wideLiteralOutput env @ outputFolderPath env @ [CHR 0x27] @ '' : '' @ m),
                     LOGINFO ''SaveInterestingFilesModule save operations finished'']\<rparr>)"
proof -
  let ?ws = "w\<lparr>logged := logged w @ [LOGINFO ''SaveInterestingFilesModule save operations started'']\<rparr>"
  from root have cd: "createDirectory env (outputFolderPath env) ?ws =
      (Inr (), ?ws\<lparr>events := events w @ [CreatedDirectories (outputFolderPath env)]\<rparr>)"
    by (simp add: createDirectory_def)
  have "saveFileSets fuel env fileSetHits (before @ fileSet # after) (OK, wg) =
        Some (Inl (TskException
                 (wideLiteralOutput env @ outputFolderPath env @ [CHR 0x27] @ '' : '' @ m)), rc1, w1)"
    using before saveFiles_folder_failure [OF fail]
    by (simp add: saveFileSets_append)
  with cd grouped show ?thesis
    by (simp add: report_def)
qed


theorem set_folder_failure_ends_run_witness:
  "report 1
     (demo_env [''out/setB''] []
        [demo_hit 100 5 ''setA'' ''a'', demo_hit 101 3 ''setB'' ''b'', demo_hit 102 9 ''setC'' ''c''])
     demo_start =
   Some (Inr FAIL,
         \<lparr>events = [CreatedDirectories ''out'', CreatedDirectories ''out/setA'',
                    CopiedFile 5 ''out/setA/report_5.txt'',
                    WroteReport ''out/setA/setA.xml''
                      (demo_set_report ''setA'' ''a''
                         [demo_entry ''out/setA/report_5.txt'' ''report.txt''])],
            logged = [LOGINFO ''SaveInterestingFilesModule save operations started'',
                      LOGERROR (''0x4a7c30'' @ ''out'' @ [CHR 0x27] @ '' : denied''),
                      LOGINFO ''SaveInterestingFilesModule save operations finished'']\<rparr>)"
proof -
  let ?h5 = "demo_hit 100 5 ''setA'' ''a''" and ?h3 = "demo_hit 101 3 ''setB'' ''b''"
  let ?h9 = "demo_hit 102 9 ''setC'' ''c''"
  let ?E = "demo_env [''out/setB''] [] [?h5, ?h3, ?h9]"
  let ?wg = "demo_start\<lparr>logged := logged demo_start @
                 [LOGINFO ''SaveInterestingFilesModule save operations started''],
               events := events demo_start @ [CreatedDirectories (outputFolderPath ?E)]\<rparr>"
  let ?w1 = "\<lparr>events = [CreatedDirectories ''out'', CreatedDirectories ''out/setA'',
                    CopiedFile 5 ''out/setA/report_5.txt'',
                    WroteReport ''out/setA/setA.xml''
                      (demo_set_report ''setA'' ''a''
                         [demo_entry ''out/setA/report_5.txt'' ''report.txt''])],
            logged = [LOGINFO ''SaveInterestingFilesModule save operations started'']\<rparr>"
  let ?hits = "[(''setA'', ?h5), (''setB'', ?h3), (''setC'', ?h9)]"
  have root: "createDirectories ?E (events demo_start) (outputFolderPath ?E) = None"
    by (simp add: demo_env_def)
  have grouped: "groupFileSetHits (getArtifacts ?E) ([], [], ?wg) =
                 ([(''setA'', ''a'')] @ (''setB'', ''b'') # [(''setC'', ''c'')], ?hits, ?wg)"
    by code_simp
  have before: "saveFileSets 1 ?E ?hits [(''setA'', ''a'')] (OK, ?wg) = Some (Inr (), OK, ?w1)"
    by code_simp
  have fail: "createDirectories ?E (events ?w1)
                (outputFolderPath ?E @ [separator ?E] @ fst (''setB'', ''b'')) = Some ''denied''"
    by (simp add: demo_env_def)
  from set_folder_failure_ends_run [OF root grouped before fail] show ?thesis
    by (simp add: demo_env_def)
qed

theorem set_folder_failure_counterexample:
  "createDirectories
     (demo_env [''out/setA''] [] [demo_hit 100 5 ''setA'' ''a'', demo_hit 101 3 ''setB'' ''b''])
     [CreatedDirectories ''out''] ''out/setB'' = None \<and>
   report 1
     (demo_env [''out/setA''] [] [demo_hit 100 5 ''setA'' ''a'', demo_hit 101 3 ''setB'' ''b''])
     demo_start =
   Some (Inr FAIL,
         \<lparr>events = [CreatedDirectories ''out''],
            logged = [LOGINFO ''SaveInterestingFilesModule save operations started'',
                      LOGERROR (''0x4a7c30'' @ ''out'' @ [CHR 0x27] @ '' : denied''),
                      LOGINFO ''SaveInterestingFilesModule save operations finished'']\<rparr>)"
  by code_simp

section \<open>Grouping the hits and the whole run\<close>

lemma findSetName_fold:
  "findSetName fileHit attrs (found, fileSets, fileSetHits) =
     (found \<or> filter (\<lambda>attr. getAttributeTypeID attr = TSK_SET_NAME) attrs \<noteq> [],
      foldl (\<lambda>m kv. map_insert kv m) fileSets
        (map (\<lambda>attr. (getValueString attr, getContext attr))
           (filter (\<lambda>attr. getAttributeTypeID attr = TSK_SET_NAME) attrs)),
      foldl (\<lambda>m kv. multimap_insert kv m) fileSetHits
        (map (\<lambda>attr. (getValueString attr, fileHit))
           (filter (\<lambda>attr. getAttributeTypeID attr = TSK_SET_NAME) attrs)))"
  by (induction attrs arbitrary: found fileSets fileSetHits) auto

lemma groupFileSetHits_fold:
  "groupFileSetHits arts (fileSets, fileSetHits, w) =
     (foldl (\<lambda>m kv. map_insert kv m) fileSets (name_pairs arts),
      foldl (\<lambda>m kv. multimap_insert kv m) fileSetHits (hit_pairs arts),
      w\<lparr>logged := logged w @
           map no_set_name_error (filter (\<lambda>fileHit. set_name_attributes fileHit = []) arts)\<rparr>)"
proof (induction arts arbitrary: fileSets fileSetHits w)
  case Nil
  then show ?case by (simp add: name_pairs_def hit_pairs_def)
next
  case (Cons a arts)
  show ?case
    by (simp add: findSetName_fold Cons.IH name_pairs_def hit_pairs_def set_name_attributes_def
          no_set_name_error_def)
qed

lemma map_insert_keys: "fst ` set (map_insert (k, v) m) = insert k (fst ` set m)"
  by (induction m) (force split: if_splits)+

lemma map_insert_sorted:
  "sorted_wrt (<) (map fst m) \<Longrightarrow> sorted_wrt (<) (map fst (map_insert (k, v) m))"
proof (induction m)
  case Nil
  then show ?case by simp
next
  case (Cons p m)
  obtain k' v' where p: "p = (k', v')" by (cases p)
  from Cons show ?case
    using map_insert_keys [of k v m] by (auto simp: p)
qed

lemma map_insert_map_of:
  "sorted_wrt (<) (map fst m) \<Longrightarrow> map_of (map_insert (k, v) m) = map_of (m @ [(k, v)])"
proof (induction m)
  case Nil
  then show ?case by simp
next
  case (Cons p m)
  obtain k' v' where p: "p = (k', v')" by (cases p)
  show ?case
  proof (cases "k < k'")
    case True
    with Cons.prems p have "\<forall>x \<in> set m. k < fst x" by auto
    then have "k \<notin> fst ` set m" by auto
    then have "map_of m k = None" by (simp add: map_of_eq_None_iff)
    with True p show ?thesis
      by (auto simp: fun_eq_iff map_add_def split: option.splits)
  next
    case False
    with Cons p show ?thesis
      by (auto simp: fun_eq_iff map_add_def split: option.splits)
  qed
qed

lemma foldl_map_insert:
  "sorted_wrt (<) (map fst m) \<Longrightarrow>
   sorted_wrt (<) (map fst (foldl (\<lambda>m kv. map_insert kv m) m ps)) \<and>
   fst ` set (foldl (\<lambda>m kv. map_insert kv m) m ps) = fst ` set m \<union> fst ` set ps \<and>
   map_of (foldl (\<lambda>m kv. map_insert kv m) m ps) = map_of (m @ ps)"
proof (induction ps arbitrary: m)
  case Nil
  then show ?case by simp
next
  case (Cons p ps)
  obtain k v where p: "p = (k, v)" by (cases p)
  from Cons.prems have s: "sorted_wrt (<) (map fst (map_insert (k, v) m))"
    by (rule map_insert_sorted)
  from Cons.IH [OF s] map_insert_keys [of k v m] map_insert_map_of [OF Cons.prems, of k v]
  show ?case by (auto simp: p)
qed


lemma groupFileSetHits_fileSets:
  assumes "groupFileSetHits arts ([], [], w) = (fileSets, fileSetHits, w1)"
  shows "sorted_wrt (<) (map fst fileSets)" "fst ` set fileSets = fst ` set (name_pairs arts)"
    "map_of fileSets = map_of (name_pairs arts)" "events w1 = events w"
    "fileSetHits = foldl (\<lambda>m kv. multimap_insert kv m) [] (hit_pairs arts)"
    "fileSets = foldl (\<lambda>m kv. map_insert kv m) [] (name_pairs arts)"
  using assms foldl_map_insert [of "[]" "name_pairs arts"]
  by (auto simp: groupFileSetHits_fold)


lemma saveFileSets_reports:
  assumes "saveFileSets fuel env fileSetHits fileSets (rc, w) = Some (r, rc', w')"
  shows "\<exists>new. events w' = events w @ new \<and>
           (\<forall>p doc. WroteReport p doc \<in> set new \<longrightarrow>
              (\<exists>fileSet \<in> set fileSets. \<exists>entries.
                  doc = Element ''InterestingFileSet''
                          [(''name'', fst fileSet), (''description'', snd fileSet)] entries))"
  using assms
proof (induction fileSets arbitrary: rc w)
  case Nil
  then show ?case by simp
next
  case (Cons fileSet fileSets)
  let ?hits = "map snd (equal_range (fst fileSet) fileSetHits)"
  from Cons.prems obtain r1 rc1 w1 where
    one: "saveFiles fuel env (fst fileSet) (snd fileSet) ?hits (rc, w) = Some (r1, rc1, w1)"
    by (cases "saveFiles fuel env (fst fileSet) (snd fileSet) ?hits (rc, w)")
       (auto simp del: saveFiles.simps)
  from saveFiles_cases [OF one] obtain new1 where
    new1: "events w1 = events w @ new1"
      "\<forall>p doc. WroteReport p doc \<in> set new1 \<longrightarrow>
         (\<exists>entries. doc = Element ''InterestingFileSet''
                          [(''name'', fst fileSet), (''description'', snd fileSet)] entries)"
    by (elim disjE exE conjE) (force+)
  show ?case
  proof (cases r1)
    case (Inl e)
    with Cons.prems one have "w' = w1" by (simp del: saveFiles.simps)
    with new1 show ?thesis by (intro exI [of _ new1]) auto
  next
    case (Inr u)
    with Cons.prems one
    have "saveFileSets fuel env fileSetHits fileSets (rc1, w1) = Some (r, rc', w')"
      by (simp del: saveFiles.simps)
    from Cons.IH [OF this] obtain new2 where
      new2: "events w' = events w1 @ new2"
        "\<forall>p doc. WroteReport p doc \<in> set new2 \<longrightarrow>
           (\<exists>fileSet \<in> set fileSets. \<exists>entries.
              doc = Element ''InterestingFileSet''
                      [(''name'', fst fileSet), (''description'', snd fileSet)] entries)"
      by blast
    with new1 show ?thesis by (intro exI [of _ "new1 @ new2"]) auto
  qed
qed



lemma report_try_cases:
  assumes "report_try fuel env (rc, w) = Some (r, rc', w')"
  shows "(createDirectories env (events w) (outputFolderPath env) \<noteq> None \<and> events w' = events w \<and>
          (\<exists>m. r = Inl (TskException m))) \<or>
         (\<exists>w1. events w1 = events w @ [CreatedDirectories (outputFolderPath env)] \<and>
            saveFileSets fuel env
              (foldl (\<lambda>m kv. multimap_insert kv m) [] (hit_pairs (getArtifacts env)))
              (foldl (\<lambda>m kv. map_insert kv m) [] (name_pairs (getArtifacts env)))
              (rc, w1) = Some (r, rc', w'))"
proof (cases "createDirectories env (events w) (outputFolderPath env)")
  case (Some m)
  with assms show ?thesis by (auto simp: createDirectory_def)
next
  case None
  then have cd: "createDirectory env (outputFolderPath env) w =
      (Inr (), w\<lparr>events := events w @ [CreatedDirectories (outputFolderPath env)]\<rparr>)"
    by (simp add: createDirectory_def)
  let ?w1 = "w\<lparr>events := events w @ [CreatedDirectories (outputFolderPath env)],
                logged := logged w @
                  map no_set_name_error
                    (filter (\<lambda>fileHit. set_name_attributes fileHit = []) (getArtifacts env))\<rparr>"
  from assms cd
  have "saveFileSets fuel env
          (foldl (\<lambda>m kv. multimap_insert kv m) [] (hit_pairs (getArtifacts env)))
          (foldl (\<lambda>m kv. map_insert kv m) [] (name_pairs (getArtifacts env)))
          (rc, ?w1) = Some (r, rc', w')"
    by (simp add: groupFileSetHits_fold)
  then show ?thesis
    by (intro disjI2 exI [of _ ?w1]) simp
qed




text \<open>
  Claim C9. The grouping keeps one description per set name: the names of the map are
  distinct, they are the names met, and the description kept for a name is the one of
  the first set-name attribute met with that name. Every report the run writes has the
  root \<^verbatim>\<open>InterestingFileSet\<close> with the attributes \<^verbatim>\<open>name\<close> and \<^verbatim>\<open>description\<close> of one entry of
  that map.
\<close>

theorem set_descriptions:
  assumes "groupFileSetHits (getArtifacts env) ([], [], wg) = (fileSets, fileSetHits, wg')"
  shows "distinct (map fst fileSets) \<and>
         fst ` set fileSets = fst ` set (name_pairs (getArtifacts env)) \<and>
         (\<forall>before n d after.
            name_pairs (getArtifacts env) = before @ (n, d) # after \<and> n \<notin> fst ` set before \<longrightarrow>
            map_of fileSets n = Some d) \<and>
         (\<forall>fuel rc w r rc' w'.
            report_try fuel env (rc, w) = Some (r, rc', w') \<longrightarrow>
            (\<exists>new. events w' = events w @ new \<and>
               (\<forall>p doc. WroteReport p doc \<in> set new \<longrightarrow>
                  (\<exists>n d entries. map_of fileSets n = Some d \<and>
                     doc = Element ''InterestingFileSet''
                             [(''name'', n), (''description'', d)] entries))))"
proof -
  note g = groupFileSetHits_fileSets [OF assms]
  from g(1) have dist: "distinct (map fst fileSets)" by (simp add: strict_sorted_iff)
  have first: "map_of fileSets n = Some d"
    if "name_pairs (getArtifacts env) = before @ (n, d) # after" "n \<notin> fst ` set before"
    for before n d after
  proof -
    from that(2) have "map_of before n = None" by (simp add: map_of_eq_None_iff)
    with that(1) g(3) show ?thesis by (simp add: map_add_def)
  qed
  have reports: "\<exists>new. events w' = events w @ new \<and>
               (\<forall>p doc. WroteReport p doc \<in> set new \<longrightarrow>
                  (\<exists>n d entries. map_of fileSets n = Some d \<and>
                     doc = Element ''InterestingFileSet''
                             [(''name'', n), (''description'', d)] entries))"
    if run: "report_try fuel env (rc, w) = Some (r, rc', w')" for fuel rc w r rc' w'
  proof -
    from report_try_cases [OF run] show ?thesis
    proof (elim disjE conjE exE)
      assume "events w' = events w"
      then show ?thesis by (intro exI [of _ "[]"]) simp
    next
      fix w2 assume w2: "events w2 = events w @ [CreatedDirectories (outputFolderPath env)]"
        and sets: "saveFileSets fuel env
              (foldl (\<lambda>m kv. multimap_insert kv m) [] (hit_pairs (getArtifacts env)))
              (foldl (\<lambda>m kv. map_insert kv m) [] (name_pairs (getArtifacts env)))
              (rc, w2) = Some (r, rc', w')"
      from saveFileSets_reports [OF sets [folded g(6)]] obtain new where
        new: "events w' = events w2 @ new"
          "\<forall>p doc. WroteReport p doc \<in> set new \<longrightarrow>
              (\<exists>fileSet \<in> set fileSets. \<exists>entries.
                  doc = Element ''InterestingFileSet''
                          [(''name'', fst fileSet), (''description'', snd fileSet)] entries)"
        by blast
      have "map_of fileSets (fst fileSet) = Some (snd fileSet)" if "fileSet \<in> set fileSets" for fileSet
        using that by (simp add: map_of_eq_Some_iff [OF dist])
      with new w2 show ?thesis
        by (intro exI [of _ "CreatedDirectories (outputFolderPath env) # new"]) fastforce
    qed
  qed
  from dist g(2) first reports show ?thesis by blast
qed


theorem set_descriptions_witness:
  "groupFileSetHits (getArtifacts (demo_env [] [] demo_three_hits)) ([], [], demo_start) =
     ([(''setA'', ''first''), (''setB'', ''b'')],
      [(''setA'', demo_hit 101 3 ''setA'' ''first''), (''setA'', demo_hit 102 9 ''setA'' ''second''),
       (''setB'', demo_hit 100 5 ''setB'' ''b'')], demo_start) \<and>
   name_pairs demo_three_hits = [(''setB'', ''b'')] @ (''setA'', ''first'') # [(''setA'', ''second'')] \<and>
   map_of [(''setA'', ''first''), (''setB'', ''b'')] ''setA'' = Some ''first'' \<and>
   report_try 1 (demo_env [] [] demo_three_hits) (OK, demo_start) =
     Some (Inr (), OK, \<lparr>events = demo_three_hits_events, logged = []\<rparr>) \<and>
   (\<exists>new. demo_three_hits_events = new \<and>
      (\<forall>p doc. WroteReport p doc \<in> set new \<longrightarrow>
         (\<exists>n d entries. map_of [(''setA'', ''first''), (''setB'', ''b'')] n = Some d \<and>
            doc = Element ''InterestingFileSet'' [(''name'', n), (''description'', d)] entries)))"
proof -
  let ?E = "demo_env [] [] demo_three_hits"
  let ?sets = "[(''setA'', ''first''), (''setB'', ''b'')]"
  have grouped: "groupFileSetHits (getArtifacts ?E) ([], [], demo_start) =
     (?sets,
      [(''setA'', demo_hit 101 3 ''setA'' ''first''), (''setA'', demo_hit 102 9 ''setA'' ''second''),
       (''setB'', demo_hit 100 5 ''setB'' ''b'')], demo_start)"
    by code_simp
  have pairs: "name_pairs (getArtifacts ?E) =
               [(''setB'', ''b'')] @ (''setA'', ''first'') # [(''setA'', ''second'')]"
    by code_simp
  have fresh: "''setA'' \<notin> fst ` set [(''setB'', ''b'')]" by simp
  have run: "report_try 1 ?E (OK, demo_start) =
     Some (Inr (), OK, \<lparr>events = demo_three_hits_events, logged = []\<rparr>)"
    by code_simp
  have env: "getArtifacts ?E = demo_three_hits" "events demo_start = []"
    by (simp_all add: demo_env_def demo_start_def)
  note t = set_descriptions [OF grouped]
  from t pairs fresh have first: "map_of ?sets ''setA'' = Some ''first''" by blast
  from t run have "\<exists>new. events \<lparr>events = demo_three_hits_events, logged = []\<rparr> = events demo_start @ new \<and>
      (\<forall>p doc. WroteReport p doc \<in> set new \<longrightarrow>
         (\<exists>n d entries. map_of ?sets n = Some d \<and>
            doc = Element ''InterestingFileSet'' [(''name'', n), (''description'', d)] entries))"
    by blast
  then have reports: "\<exists>new. demo_three_hits_events = new \<and>
      (\<forall>p doc. WroteReport p doc \<in> set new \<longrightarrow>
         (\<exists>n d entries. map_of ?sets n = Some d \<and>
            doc = Element ''InterestingFileSet'' [(''name'', n), (''description'', d)] entries))"
    unfolding env by simp
  from grouped pairs [unfolded env] first run reports show ?thesis by blast
qed

section \<open>Artifacts without a set name\<close>

text \<open>The file-system operations see the events only, and nothing below \<open>report\<close> reads
  the artifacts: started from worlds with the same events, with the same or another list of
  artifacts on the blackboard, each function ends the same way, with the same report and
  the same events.\<close>

lemma createDirectory_same:
  assumes "same_events w1 w2"
  shows "rel_prod (=) same_events
           (createDirectory (env\<lparr>getArtifacts := arts\<rparr>) path w1) (createDirectory env path w2)"
  using assms by (auto simp: createDirectory_def same_events_def split: option.splits)

lemma saveDirectoryContents_same:
  "rel_prod same_events (=) s1 s2 \<Longrightarrow>
   rel_option (rel_prod (=) (rel_prod same_events (=)))
     (saveDirectoryContents fuel (env\<lparr>getArtifacts := arts\<rparr>) dirPath dir s1)
     (saveDirectoryContents fuel env dirPath dir s2)"
  "rel_prod same_events (=) s1 s2 \<Longrightarrow>
   rel_option (rel_prod (=) (rel_prod same_events (=)))
     (saveFileRecords fuel (env\<lparr>getArtifacts := arts\<rparr>) dirPath fileRecs s1)
     (saveFileRecords fuel env dirPath fileRecs s2)"
proof (induction fuel env dirPath dir s2 and fuel env dirPath fileRecs s2
    arbitrary: s1 and s1 rule: saveDirectoryContents_saveFileRecords.induct)
  case (1 env dirPath dir w report)
  then show ?case by (cases s1) simp
next
  case (2 fuel env dirPath dir w report)
  obtain w1 where s1: "s1 = (w1, report)" using 2(2) by (cases s1) auto
  show ?case
  proof (cases "getFileRecords env (getId dir)")
    case (Inl m)
    with 2(2) s1 show ?thesis by simp
  next
    case (Inr recs)
    from 2(1) [OF Inr 2(2)] Inr s1 show ?thesis by simp
  qed
next
  case (3 fuel env dirPath w report)
  then show ?case by (cases s1) simp
next
  case (4 fuel env dirPath fileId fileRecs w report)
  obtain w1 where s1: "s1 = (w1, report)" and ev: "same_events w1 w"
    using 4(4) by (cases s1) auto
  show ?case
  proof (cases "getFile env fileId")
    case (Inl m)
    with s1 ev show ?thesis by simp
  next
    case (Inr f)
    let ?p = "dirPath @ [separator env] @ getName f"
    show ?thesis
    proof (cases "getMetaType f = TSK_FS_META_TYPE_DIR")
      case True
      obtain r2 w2 where cd2: "createDirectory env ?p w = (r2, w2)"
        by (cases "createDirectory env ?p w")
      obtain r1' w1' where cd1: "createDirectory (env\<lparr>getArtifacts := arts\<rparr>) ?p w1 = (r1', w1')"
        by (cases "createDirectory (env\<lparr>getArtifacts := arts\<rparr>) ?p w1")
      from createDirectory_same [OF ev, where env = env and arts = arts and path = "?p"] cd1 cd2
      have r: "r1' = r2" and ev': "same_events w1' w2" by auto
      show ?thesis
      proof (cases r2)
        case (Inl e)
        with s1 Inr True cd1 cd2 r ev' show ?thesis by simp
      next
        case (Inr u)
        have st: "rel_prod same_events (=) (w1', report) (w2, report)" using ev' by simp
        note ih1 = 4(1) [OF \<open>getFile env fileId = Inr f\<close> True refl cd2 [symmetric] Inr st]
        show ?thesis
        proof (cases "saveDirectoryContents fuel env ?p f (w2, report)")
          case None
          with ih1 s1 \<open>getFile env fileId = Inr f\<close> True cd1 cd2 r Inr show ?thesis
            by (auto simp: Let_def)
        next
          case (Some res2)
          obtain rr2 ww2 dd2 where res2: "res2 = (rr2, ww2, dd2)" by (cases res2)
          from ih1 Some res2 obtain ww1 where
            sub1: "saveDirectoryContents fuel (env\<lparr>getArtifacts := arts\<rparr>) ?p f (w1', report) =
                     Some (rr2, ww1, dd2)" and ev'': "same_events ww1 ww2"
            by (cases "saveDirectoryContents fuel (env\<lparr>getArtifacts := arts\<rparr>) ?p f (w1', report)")
               auto
          show ?thesis
          proof (cases rr2)
            case (Inl e)
            with s1 \<open>getFile env fileId = Inr f\<close> True cd1 cd2 r \<open>r2 = Inr u\<close> Some res2 sub1 ev''
            show ?thesis by (simp add: Let_def)
          next
            case (Inr u')
            have st2: "rel_prod same_events (=) (ww1, dd2) (ww2, dd2)" using ev'' by simp
            note ih2 = 4(2) [OF \<open>getFile env fileId = Inr f\<close> True refl cd2 [symmetric]
                \<open>r2 = Inr u\<close> Some res2 [THEN arg_cong [where f = "\<lambda>x. x"], symmetric] Inr refl st2]
            with s1 \<open>getFile env fileId = Inr f\<close> True cd1 cd2 r \<open>r2 = Inr u\<close> Some res2 sub1 Inr
            show ?thesis by (simp add: Let_def)
          qed
        qed
      qed
    next
      case False
      from ev have e: "events w1 = events w" by (simp add: same_events_def)
      show ?thesis
      proof (cases "copyFile env (events w) (getId f) ?p")
        case (Some m)
        with s1 Inr False e ev show ?thesis by (simp add: Let_def)
      next
        case None
        have st: "rel_prod same_events (=)
                    (w1\<lparr>events := events w1 @ [CopiedFile (getId f) ?p]\<rparr>, addFileToReport f ?p report)
                    (w\<lparr>events := events w @ [CopiedFile (getId f) ?p]\<rparr>, addFileToReport f ?p report)"
          using e by (simp add: same_events_def)
        from 4(3) [OF Inr False refl None st] s1 Inr False None e
        show ?thesis by (simp add: Let_def)
      qed
    qed
  qed
qed


lemma saveFileHit_same:
  assumes "rel_prod same_events (=) s1 s2"
  shows "rel_option (rel_prod (=) (rel_prod same_events (=)))
           (saveFileHit fuel (env\<lparr>getArtifacts := arts\<rparr>) folder fileHit s1)
           (saveFileHit fuel env folder fileHit s2)"
proof -
  obtain w1 w2 doc where s: "s1 = (w1, doc)" "s2 = (w2, doc)" and ev: "same_events w1 w2"
    using assms by (cases s1; cases s2) auto
  from ev have e: "events w1 = events w2" by (simp add: same_events_def)
  show ?thesis
  proof (cases "getFile env (getObjectID fileHit)")
    case (Inl m)
    with s ev show ?thesis by simp
  next
    case (Inr f)
    show ?thesis
    proof (cases "getMetaType f = TSK_FS_META_TYPE_DIR")
      case False
      with s Inr e show ?thesis
        by (auto simp: Let_def same_events_def split: option.splits)
    next
      case True
      let ?top = "folder @ [separator env] @ getName f @ ''_'' @ string_of_nat (getId f) @
                  [separator env] @ getName f"
      obtain r2 w2' where cd2: "createDirectory env ?top w2 = (r2, w2')"
        by (cases "createDirectory env ?top w2")
      obtain r1 w1' where cd1: "createDirectory (env\<lparr>getArtifacts := arts\<rparr>) ?top w1 = (r1, w1')"
        by (cases "createDirectory (env\<lparr>getArtifacts := arts\<rparr>) ?top w1")
      from createDirectory_same [OF ev, where env = env and arts = arts and path = "?top"] cd1 cd2
      have r: "r1 = r2" and ev': "same_events w1' w2'" by auto
      show ?thesis
      proof (cases r2)
        case (Inl e)
        with s Inr True cd1 cd2 r ev' show ?thesis by (simp add: Let_def)
      next
        case (Inr u)
        have "rel_prod same_events (=) (w1', addFileToReport f ?top doc) (w2', addFileToReport f ?top doc)"
          using ev' by simp
        from saveDirectoryContents_same(1) [OF this, where fuel = fuel and env = env and arts = arts and dirPath = "?top" and dir = f]
          s \<open>getFile env (getObjectID fileHit) = Inr f\<close> True cd1 cd2 r Inr
        show ?thesis by (simp add: Let_def)
      qed
    qed
  qed
qed

lemma saveFileHits_same:
  "rel_prod (=) (rel_prod same_events (=)) s1 s2 \<Longrightarrow>
   rel_option (rel_prod (=) (rel_prod (=) (rel_prod same_events (=))))
     (saveFileHits fuel (env\<lparr>getArtifacts := arts\<rparr>) folder fileHits s1)
     (saveFileHits fuel env folder fileHits s2)"
proof (induction fileHits arbitrary: s1 s2)
  case Nil
  then show ?case by (cases s1; cases s2) auto
next
  case (Cons h hs)
  obtain rc w1 w2 doc where s: "s1 = (rc, w1, doc)" "s2 = (rc, w2, doc)" and ev: "same_events w1 w2"
    using Cons.prems by (cases s1; cases s2) auto
  have st: "rel_prod same_events (=) (w1, doc) (w2, doc)" using ev by simp
  note hit = saveFileHit_same [OF st, where fuel = fuel and env = env and arts = arts and folder = folder and fileHit = h]
  show ?case
  proof (cases "saveFileHit fuel env folder h (w2, doc)")
    case None
    with hit s show ?thesis by auto
  next
    case (Some res2)
    obtain r w2' doc' where res2: "res2 = (r, w2', doc')" by (cases res2)
    from hit Some res2 obtain w1' where
      h1: "saveFileHit fuel (env\<lparr>getArtifacts := arts\<rparr>) folder h (w1, doc) = Some (r, w1', doc')"
      and ev': "same_events w1' w2'"
      by (cases "saveFileHit fuel (env\<lparr>getArtifacts := arts\<rparr>) folder h (w1, doc)") auto
    show ?thesis
    proof (cases r)
      case (Inr u)
      have "rel_prod (=) (rel_prod same_events (=)) (rc, w1', doc') (rc, w2', doc')"
        using ev' by simp
      from Cons.IH [OF this] s Some res2 h1 Inr show ?thesis by simp
    next
      case (Inl e)
      show ?thesis
      proof (cases e)
        case (TskException m)
        have "rel_prod (=) (rel_prod same_events (=))
                (FAIL, w1'\<lparr>logged := logged w1' @ [LOGERROR m]\<rparr>, doc')
                (FAIL, w2'\<lparr>logged := logged w2' @ [LOGERROR m]\<rparr>, doc')"
          using ev' by (simp add: same_events_def)
        from Cons.IH [OF this] s Some res2 h1 Inl TskException show ?thesis by simp
      next
        case (PocoException m)
        with s Some res2 h1 Inl ev' show ?thesis by simp
      qed
    qed
  qed
qed

lemma saveFiles_same:
  assumes "rel_prod (=) same_events s1 s2"
  shows "rel_option (rel_prod (=) (rel_prod (=) same_events))
           (saveFiles fuel (env\<lparr>getArtifacts := arts\<rparr>) setName setDescription fileHits s1)
           (saveFiles fuel env setName setDescription fileHits s2)"
proof -
  obtain rc w1 w2 where s: "s1 = (rc, w1)" "s2 = (rc, w2)" and ev: "same_events w1 w2"
    using assms by (cases s1; cases s2) auto
  let ?folder = "outputFolderPath env @ [separator env] @ setName"
  let ?doc = "Element ''InterestingFileSet'' [(''name'', setName), (''description'', setDescription)] []"
  obtain r2 w2' where cd2: "createDirectory env ?folder w2 = (r2, w2')"
    by (cases "createDirectory env ?folder w2")
  obtain r1 w1' where cd1: "createDirectory (env\<lparr>getArtifacts := arts\<rparr>) ?folder w1 = (r1, w1')"
    by (cases "createDirectory (env\<lparr>getArtifacts := arts\<rparr>) ?folder w1")
  from createDirectory_same [OF ev, where env = env and arts = arts and path = "?folder"] cd1 cd2
  have r: "r1 = r2" and ev': "same_events w1' w2'" by auto
  show ?thesis
  proof (cases r2)
    case (Inl e)
    with s cd1 cd2 r ev' show ?thesis by (simp add: Let_def)
  next
    case (Inr u)
    have "rel_prod (=) (rel_prod same_events (=)) (rc, w1', ?doc) (rc, w2', ?doc)"
      using ev' by simp
    note hits = saveFileHits_same [OF this, where fuel = fuel and env = env and arts = arts and folder = "?folder" and fileHits = fileHits]
    show ?thesis
    proof (cases "saveFileHits fuel env ?folder fileHits (rc, w2', ?doc)")
      case None
      with hits s cd1 cd2 r Inr show ?thesis by (auto simp: Let_def)
    next
      case (Some res2)
      obtain rh rch wh2 dh where res2: "res2 = (rh, rch, wh2, dh)" by (cases res2)
      from hits Some res2 obtain wh1 where
        h1: "saveFileHits fuel (env\<lparr>getArtifacts := arts\<rparr>) ?folder fileHits (rc, w1', ?doc) =
               Some (rh, rch, wh1, dh)"
        and evh: "same_events wh1 wh2"
        by (cases "saveFileHits fuel (env\<lparr>getArtifacts := arts\<rparr>) ?folder fileHits (rc, w1', ?doc)")
           auto
      from evh have "events wh1 = events wh2" by (simp add: same_events_def)
      with s cd1 cd2 r Inr Some res2 h1 show ?thesis
        by (cases rh) (auto simp: Let_def same_events_def split: option.splits)
    qed
  qed
qed

lemma saveFileSets_same:
  "rel_prod (=) same_events s1 s2 \<Longrightarrow>
   rel_option (rel_prod (=) (rel_prod (=) same_events))
     (saveFileSets fuel (env\<lparr>getArtifacts := arts\<rparr>) fileSetHits fileSets s1)
     (saveFileSets fuel env fileSetHits fileSets s2)"
proof (induction fileSets arbitrary: s1 s2)
  case Nil
  then show ?case by (cases s1; cases s2) auto
next
  case (Cons fileSet fileSets)
  obtain rc w1 w2 where s: "s1 = (rc, w1)" "s2 = (rc, w2)"
    using Cons.prems by (cases s1; cases s2) auto
  let ?hits = "map snd (equal_range (fst fileSet) fileSetHits)"
  note one = saveFiles_same [OF Cons.prems, where fuel = fuel and env = env and arts = arts and setName = "fst fileSet" and setDescription = "snd fileSet" and fileHits = "?hits"]
  show ?case
  proof (cases "saveFiles fuel env (fst fileSet) (snd fileSet) ?hits s2")
    case None
    with one s show ?thesis by (auto simp del: saveFiles.simps)
  next
    case (Some res2)
    obtain r rc' w2' where res2: "res2 = (r, rc', w2')" by (cases res2)
    from one Some res2 obtain w1' where
      o1: "saveFiles fuel (env\<lparr>getArtifacts := arts\<rparr>) (fst fileSet) (snd fileSet) ?hits s1 =
             Some (r, rc', w1')"
      and ev': "same_events w1' w2'"
      by (cases "saveFiles fuel (env\<lparr>getArtifacts := arts\<rparr>) (fst fileSet) (snd fileSet) ?hits s1")
         (auto simp del: saveFiles.simps)
    show ?thesis
    proof (cases r)
      case (Inl e)
      with s Some res2 o1 ev' show ?thesis by (simp del: saveFiles.simps)
    next
      case (Inr u)
      have "rel_prod (=) same_events (rc', w1') (rc', w2')" using ev' by simp
      from Cons.IH [OF this] s Some res2 o1 Inr show ?thesis by (simp del: saveFiles.simps)
    qed
  qed
qed


lemma name_pairs_without:
  assumes "\<forall>attr \<in> set (getAttributes fileHit). getAttributeTypeID attr \<noteq> TSK_SET_NAME"
  shows "set_name_attributes fileHit = []"
    "name_pairs (before @ fileHit # after) = name_pairs (before @ after)"
    "hit_pairs (before @ fileHit # after) = hit_pairs (before @ after)"
proof -
  from assms show 1: "set_name_attributes fileHit = []"
    by (auto simp: set_name_attributes_def filter_empty_conv)
  from 1 show "name_pairs (before @ fileHit # after) = name_pairs (before @ after)"
    "hit_pairs (before @ fileHit # after) = hit_pairs (before @ after)"
    by (simp_all add: name_pairs_def hit_pairs_def)
qed

lemma report_try_same:
  assumes "\<forall>attr \<in> set (getAttributes fileHit). getAttributeTypeID attr \<noteq> TSK_SET_NAME"
    and "getArtifacts env = before @ fileHit # after"
  shows "rel_option (rel_prod (=) (rel_prod (=) same_events))
           (report_try fuel (env\<lparr>getArtifacts := before @ after\<rparr>) (rc, w))
           (report_try fuel env (rc, w))"
proof -
  let ?env' = "env\<lparr>getArtifacts := before @ after\<rparr>"
  have cd: "createDirectory ?env' (outputFolderPath env) w = createDirectory env (outputFolderPath env) w"
    by (simp add: createDirectory_def split: option.splits)
  obtain r1 w1 where cd1: "createDirectory env (outputFolderPath env) w = (r1, w1)"
    by (cases "createDirectory env (outputFolderPath env) w")
  show ?thesis
  proof (cases r1)
    case (Inl e)
    with cd cd1 show ?thesis by (simp add: same_events_def)
  next
    case (Inr u)
    let ?sets = "foldl (\<lambda>m kv. map_insert kv m) [] (name_pairs (before @ after))"
    let ?hits = "foldl (\<lambda>m kv. multimap_insert kv m) [] (hit_pairs (before @ after))"
    let ?wa = "w1\<lparr>logged := logged w1 @ map no_set_name_error
                 (filter (\<lambda>fileHit. set_name_attributes fileHit = []) (before @ fileHit # after))\<rparr>"
    let ?wb = "w1\<lparr>logged := logged w1 @ map no_set_name_error
                 (filter (\<lambda>fileHit. set_name_attributes fileHit = []) (before @ after))\<rparr>"
    have a: "report_try fuel env (rc, w) = saveFileSets fuel env ?hits ?sets (rc, ?wa)"
      using cd1 Inr assms(2) name_pairs_without(2,3) [OF assms(1), of before after]
      by (simp add: groupFileSetHits_fold)
    have b: "report_try fuel ?env' (rc, w) = saveFileSets fuel ?env' ?hits ?sets (rc, ?wb)"
      using cd cd1 Inr by (simp add: groupFileSetHits_fold)
    have "rel_prod (=) same_events (rc, ?wb) (rc, ?wa)" by (simp add: same_events_def)
    from saveFileSets_same [OF this] show ?thesis unfolding a b .
  qed
qed

text \<open>
  Claim C6. An artifact without a set-name attribute is logged and left out of the
  grouping: the map of sets and the multimap of hits are the ones the grouping builds
  without that artifact, so the artifacts before and after it are grouped as usual. The
  run with that artifact on the blackboard ends the same way and leaves the same events,
  hence the same reports with the same entries, as the run without it.
\<close>

theorem hit_without_set_name:
  assumes "\<forall>attr \<in> set (getAttributes fileHit). getAttributeTypeID attr \<noteq> TSK_SET_NAME"
    and "getArtifacts env = before @ fileHit # after"
  shows "fst (groupFileSetHits (before @ fileHit # after) (fileSets, fileSetHits, wg)) =
           fst (groupFileSetHits (before @ after) (fileSets, fileSetHits, wg)) \<and>
         fst (snd (groupFileSetHits (before @ fileHit # after) (fileSets, fileSetHits, wg))) =
           fst (snd (groupFileSetHits (before @ after) (fileSets, fileSetHits, wg))) \<and>
         no_set_name_error fileHit \<in>
           set (logged (snd (snd (groupFileSetHits (before @ fileHit # after)
                                    (fileSets, fileSetHits, wg))))) \<and>
         map_option (\<lambda>(r, w'). (r, events w')) (report fuel env w) =
           map_option (\<lambda>(r, w'). (r, events w'))
             (report fuel (env\<lparr>getArtifacts := before @ after\<rparr>) w)"
proof -
  note n1 = name_pairs_without(1) [OF assms(1)]
  note n = name_pairs_without(2,3) [OF assms(1), of before after]
  have 1: "fst (groupFileSetHits (before @ fileHit # after) (fileSets, fileSetHits, wg)) =
           fst (groupFileSetHits (before @ after) (fileSets, fileSetHits, wg))"
    and 2: "fst (snd (groupFileSetHits (before @ fileHit # after) (fileSets, fileSetHits, wg))) =
           fst (snd (groupFileSetHits (before @ after) (fileSets, fileSetHits, wg)))"
    by (simp_all add: groupFileSetHits_fold n)
  have 3: "no_set_name_error fileHit \<in>
           set (logged (snd (snd (groupFileSetHits (before @ fileHit # after)
                                    (fileSets, fileSetHits, wg)))))"
    by (simp add: groupFileSetHits_fold n1)
  let ?w = "w\<lparr>logged := logged w @ [LOGINFO ''SaveInterestingFilesModule save operations started'']\<rparr>"
  let ?env' = "env\<lparr>getArtifacts := before @ after\<rparr>"
  note t = report_try_same [OF assms, of fuel OK ?w]
  have 4: "map_option (\<lambda>(r, w'). (r, events w')) (report fuel env w) =
           map_option (\<lambda>(r, w'). (r, events w')) (report fuel ?env' w)"
  proof (cases "report_try fuel env (OK, ?w)")
    case None
    with t have "report_try fuel ?env' (OK, ?w) = None" by auto
    with None show ?thesis by (simp add: report_def del: report_try.simps)
  next
    case (Some res)
    obtain r rc' w' where res: "res = (r, rc', w')" by (cases res)
    from t Some res obtain w'' where
      other: "report_try fuel ?env' (OK, ?w) = Some (r, rc', w'')" and ev: "events w'' = events w'"
      by (cases "report_try fuel ?env' (OK, ?w)") (auto simp: same_events_def simp del: report_try.simps)
    from Some res other ev show ?thesis
      by (cases r) (auto simp: report_def split: exn.splits simp del: report_try.simps)
  qed
  from 1 2 3 4 show ?thesis by blast
qed


theorem hit_without_set_name_witness:
  "list_all (\<lambda>attr. getAttributeTypeID attr \<noteq> TSK_SET_NAME) (getAttributes demo_malformed_hit) \<and>
   groupFileSetHits
     ([demo_hit 100 5 ''setA'' ''a''] @ demo_malformed_hit # [demo_hit 101 3 ''setB'' ''b''])
     ([], [], demo_start) =
     ([(''setA'', ''a''), (''setB'', ''b'')],
      [(''setA'', demo_hit 100 5 ''setA'' ''a''), (''setB'', demo_hit 101 3 ''setB'' ''b'')],
      \<lparr>events = [], logged = [no_set_name_error demo_malformed_hit]\<rparr>) \<and>
   fst (groupFileSetHits
          ([demo_hit 100 5 ''setA'' ''a''] @ [demo_hit 101 3 ''setB'' ''b'']) ([], [], demo_start)) =
     [(''setA'', ''a''), (''setB'', ''b'')] \<and>
   fst (snd (groupFileSetHits
          ([demo_hit 100 5 ''setA'' ''a''] @ [demo_hit 101 3 ''setB'' ''b'']) ([], [], demo_start))) =
     [(''setA'', demo_hit 100 5 ''setA'' ''a''), (''setB'', demo_hit 101 3 ''setB'' ''b'')] \<and>
   map_option (\<lambda>(r, w'). (r, events w'))
     (report 1
        (demo_env [] []
           ([demo_hit 100 5 ''setA'' ''a''] @ demo_malformed_hit # [demo_hit 101 3 ''setB'' ''b'']))
        demo_start) =
   map_option (\<lambda>(r, w'). (r, events w'))
     (report 1
        ((demo_env [] []
            ([demo_hit 100 5 ''setA'' ''a''] @ demo_malformed_hit # [demo_hit 101 3 ''setB'' ''b'']))
         \<lparr>getArtifacts := [demo_hit 100 5 ''setA'' ''a''] @ [demo_hit 101 3 ''setB'' ''b'']\<rparr>)
        demo_start)"
proof -
  let ?a = "demo_hit 100 5 ''setA'' ''a''" and ?b = "demo_hit 101 3 ''setB'' ''b''"
  let ?E = "demo_env [] [] ([?a] @ demo_malformed_hit # [?b])"
  have h1: "\<forall>attr \<in> set (getAttributes demo_malformed_hit). getAttributeTypeID attr \<noteq> TSK_SET_NAME"
    by (simp add: demo_malformed_hit_def)
  have h2: "getArtifacts ?E = [?a] @ demo_malformed_hit # [?b]"
    by (simp add: demo_env_def)
  have g: "groupFileSetHits ([?a] @ demo_malformed_hit # [?b]) ([], [], demo_start) =
     ([(''setA'', ''a''), (''setB'', ''b'')], [(''setA'', ?a), (''setB'', ?b)],
      \<lparr>events = [], logged = [no_set_name_error demo_malformed_hit]\<rparr>)"
    by code_simp
  note t = hit_without_set_name [OF h1 h2, of "[]" "[]" demo_start 1 demo_start]
  from t g h1 show ?thesis by (simp add: list_all_iff)
qed

section \<open>The depth bound\<close>

text \<open>The depth given to the model only bounds the descent: a run that returns with some
  depth returns the same with any greater depth.\<close>

lemma saveDirectoryContents_more_fuel:
  "saveDirectoryContents fuel env dirPath dir s = Some res \<Longrightarrow>
   saveDirectoryContents (fuel + k) env dirPath dir s = Some res"
  "saveFileRecords fuel env dirPath fileRecs s = Some res \<Longrightarrow>
   saveFileRecords (fuel + k) env dirPath fileRecs s = Some res"
proof (induction fuel env dirPath dir s and fuel env dirPath fileRecs s
    arbitrary: res and res rule: saveDirectoryContents_saveFileRecords.induct)
  case (1 env dirPath dir w report)
  then show ?case by simp
next
  case (2 fuel env dirPath dir w report)
  then show ?case by (auto split: sum.splits)
next
  case (3 fuel env dirPath w report)
  then show ?case by simp
next
  case (4 fuel env dirPath fileId fileRecs w report)
  show ?case
  proof (cases "getFile env fileId")
    case (Inl m)
    with 4(4) show ?thesis by simp
  next
    case (Inr f)
    let ?p = "dirPath @ [separator env] @ getName f"
    show ?thesis
    proof (cases "getMetaType f = TSK_FS_META_TYPE_DIR")
      case False
      with 4(3) [OF Inr False refl] 4(4) Inr show ?thesis
        by (auto simp: Let_def split: option.splits)
    next
      case True
      obtain r1 w1 where cd: "createDirectory env ?p w = (r1, w1)"
        by (cases "createDirectory env ?p w")
      show ?thesis
      proof (cases r1)
        case (Inl e)
        with 4(4) Inr True cd show ?thesis by (simp add: Let_def)
      next
        case (Inr u)
        note ih1 = 4(1) [OF \<open>getFile env fileId = Inr f\<close> True refl cd [symmetric] Inr]
        show ?thesis
        proof (cases "saveDirectoryContents fuel env ?p f (w1, report)")
          case None
          with 4(4) \<open>getFile env fileId = Inr f\<close> True cd Inr show ?thesis by (simp add: Let_def)
        next
          case (Some sub)
          obtain r2 w2 d2 where sub: "sub = (r2, w2, d2)" by (cases sub)
          from ih1 [OF Some] have more: "saveDirectoryContents (fuel + k) env ?p f (w1, report) = Some sub" .
          show ?thesis
          proof (cases r2)
            case (Inl e)
            with 4(4) \<open>getFile env fileId = Inr f\<close> True cd \<open>r1 = Inr u\<close> Some sub
            have "res = (Inl e, w2, d2)" by (simp add: Let_def)
            with \<open>getFile env fileId = Inr f\<close> True cd \<open>r1 = Inr u\<close> sub more Inl
            show ?thesis by (simp add: Let_def)
          next
            case (Inr u')
            from 4(4) \<open>getFile env fileId = Inr f\<close> True cd \<open>r1 = Inr u\<close> Some sub Inr
            have rest: "saveFileRecords fuel env dirPath fileRecs (w2, d2) = Some res"
              by (simp add: Let_def)
            from 4(2) [OF \<open>getFile env fileId = Inr f\<close> True refl cd [symmetric] \<open>r1 = Inr u\<close>
                Some sub [THEN arg_cong [where f = "\<lambda>x. x"], symmetric] Inr refl rest]
              \<open>getFile env fileId = Inr f\<close> True cd \<open>r1 = Inr u\<close> sub more Inr
            show ?thesis by (simp add: Let_def)
          qed
        qed
      qed
    qed
  qed
qed

lemma saveFileHit_more_fuel:
  "saveFileHit fuel env folder fileHit s = Some res \<Longrightarrow>
   saveFileHit (fuel + k) env folder fileHit s = Some res"
  by (cases s)
     (auto simp: Let_def saveDirectoryContents_more_fuel split: sum.splits prod.splits if_splits)

lemma saveFileHits_more_fuel:
  "saveFileHits fuel env folder fileHits s = Some res \<Longrightarrow>
   saveFileHits (fuel + k) env folder fileHits s = Some res"
proof (induction fileHits arbitrary: s)
  case Nil
  then show ?case by (cases s) simp
next
  case (Cons h hs)
  obtain rc w doc where s: "s = (rc, w, doc)" by (cases s)
  from Cons.prems s obtain r w' doc' where
    hit: "saveFileHit fuel env folder h (w, doc) = Some (r, w', doc')"
    by (cases "saveFileHit fuel env folder h (w, doc)") (auto simp del: saveFileHit.simps)
  note more = saveFileHit_more_fuel [OF hit, of k]
  show ?case
  proof (cases r)
    case (Inr u)
    with Cons.prems s hit have "saveFileHits fuel env folder hs (rc, w', doc') = Some res"
      by (simp del: saveFileHit.simps)
    from Cons.IH [OF this] s more Inr show ?thesis by (simp del: saveFileHit.simps)
  next
    case (Inl e)
    show ?thesis
    proof (cases e)
      case (TskException m)
      with Cons.prems s hit Inl
      have "saveFileHits fuel env folder hs (FAIL, w'\<lparr>logged := logged w' @ [LOGERROR m]\<rparr>, doc') =
            Some res" by (simp del: saveFileHit.simps)
      from Cons.IH [OF this] s more Inl TskException show ?thesis by (simp del: saveFileHit.simps)
    next
      case (PocoException m)
      with Cons.prems s hit Inl have "res = (Inl (PocoException m), rc, w', doc')"
        by (simp del: saveFileHit.simps)
      with s more Inl PocoException show ?thesis by (simp del: saveFileHit.simps)
    qed
  qed
qed

lemma saveFiles_more_fuel:
  "saveFiles fuel env setName setDescription fileHits s = Some res \<Longrightarrow>
   saveFiles (fuel + k) env setName setDescription fileHits s = Some res"
  by (cases s)
     (auto simp: Let_def split: sum.splits prod.splits option.splits
        dest: saveFileHits_more_fuel [where k = k])

lemma saveFileSets_more_fuel:
  "saveFileSets fuel env fileSetHits fileSets s = Some res \<Longrightarrow>
   saveFileSets (fuel + k) env fileSetHits fileSets s = Some res"
proof (induction fileSets arbitrary: s)
  case Nil
  then show ?case by (cases s) simp
next
  case (Cons fileSet fileSets)
  obtain rc w where s: "s = (rc, w)" by (cases s)
  let ?hits = "map snd (equal_range (fst fileSet) fileSetHits)"
  from Cons.prems s obtain r rc' w' where
    one: "saveFiles fuel env (fst fileSet) (snd fileSet) ?hits (rc, w) = Some (r, rc', w')"
    by (cases "saveFiles fuel env (fst fileSet) (snd fileSet) ?hits (rc, w)")
       (auto simp del: saveFiles.simps)
  note more = saveFiles_more_fuel [OF one, of k]
  show ?case
  proof (cases r)
    case (Inl e)
    with Cons.prems s one have "res = (Inl e, rc', w')" by (simp del: saveFiles.simps)
    with s more Inl show ?thesis by (simp del: saveFiles.simps)
  next
    case (Inr u)
    with Cons.prems s one have "saveFileSets fuel env fileSetHits fileSets (rc', w') = Some res"
      by (simp del: saveFiles.simps)
    from Cons.IH [OF this] s more Inr show ?thesis by (simp del: saveFiles.simps)
  qed
qed

lemma report_more_fuel:
  "report fuel env w = Some res \<Longrightarrow> report (fuel + k) env w = Some res"
proof -
  assume run: "report fuel env w = Some res"
  let ?ws = "w\<lparr>logged := logged w @ [LOGINFO ''SaveInterestingFilesModule save operations started'']\<rparr>"
  from run obtain t where t: "report_try fuel env (OK, ?ws) = Some t"
    by (cases "report_try fuel env (OK, ?ws)") (auto simp: report_def simp del: report_try.simps)
  then have "report_try (fuel + k) env (OK, ?ws) = Some t"
    by (auto split: sum.splits prod.splits dest: saveFileSets_more_fuel [where k = k])
  with run t show ?thesis
    by (simp add: report_def del: report_try.simps)
qed


text \<open>The loop over the records returns when every subdirectory among them can be saved
  with the depth left.\<close>

lemma saveFileRecords_enough_fuel:
  assumes sub: "\<And>fileId f s. fileId \<in> set fileRecs \<Longrightarrow> getFile env fileId = Inr f \<Longrightarrow>
                  getMetaType f = TSK_FS_META_TYPE_DIR \<Longrightarrow>
                  \<exists>res. saveDirectoryContents fuel env (dirPath @ [separator env] @ getName f) f s = Some res"
  shows "\<exists>res. saveFileRecords fuel env dirPath fileRecs s = Some res"
  using sub
proof (induction fileRecs arbitrary: s)
  case Nil
  then show ?case by (cases s) simp
next
  case (Cons fileId fileRecs)
  obtain w doc where s: "s = (w, doc)" by (cases s)
  have rest: "\<exists>res. saveFileRecords fuel env dirPath fileRecs s' = Some res" for s'
  proof (rule Cons.IH)
    fix i g t
    assume "i \<in> set fileRecs" "getFile env i = Inr g" "getMetaType g = TSK_FS_META_TYPE_DIR"
    then show "\<exists>res. saveDirectoryContents fuel env (dirPath @ [separator env] @ getName g) g t = Some res"
      by (intro Cons.prems [of i]) simp_all
  qed
  show ?case
  proof (cases "getFile env fileId")
    case (Inl m)
    with s show ?thesis by simp
  next
    case (Inr f)
    show ?thesis
    proof (cases "getMetaType f = TSK_FS_META_TYPE_DIR")
      case False
      with s Inr rest show ?thesis by (auto simp: Let_def split: option.splits)
    next
      case True
      let ?p = "dirPath @ [separator env] @ getName f"
      obtain r1 w1 where cd: "createDirectory env ?p w = (r1, w1)"
        by (cases "createDirectory env ?p w")
      have "\<exists>res. saveDirectoryContents fuel env ?p f (w1, doc) = Some res"
        by (rule Cons.prems [OF _ Inr True]) simp
      then obtain r2 w2 d2 where
        dir: "saveDirectoryContents fuel env ?p f (w1, doc) = Some (r2, w2, d2)" by auto
      from rest [of "(w2, d2)"] s Inr True cd dir show ?thesis
        by (cases r1; cases r2) (auto simp: Let_def)
    qed
  qed
qed

text \<open>When the directories of the image database are ranked, each below its parent, a
  depth above the rank of a directory is enough to save its contents.\<close>

lemma saveDirectoryContents_enough_fuel:
  assumes ranked: "\<And>d fileRecs fileId f.
      getFileRecords env (getId (d :: tsk_file)) = Inr fileRecs \<Longrightarrow> fileId \<in> set fileRecs \<Longrightarrow>
      getFile env fileId = Inr f \<Longrightarrow> getMetaType f = TSK_FS_META_TYPE_DIR \<Longrightarrow>
      rank (getId f) < (rank (getId d) :: nat)"
  shows "rank (getId dir) < fuel \<Longrightarrow> \<exists>res. saveDirectoryContents fuel env dirPath dir s = Some res"
proof (induction fuel arbitrary: dir dirPath s)
  case 0
  then show ?case by simp
next
  case (Suc fuel)
  obtain w doc where s: "s = (w, doc)" by (cases s)
  show ?case
  proof (cases "getFileRecords env (getId dir)")
    case (Inl m)
    with s show ?thesis by simp
  next
    case (Inr fileRecs)
    have "\<exists>res. saveFileRecords fuel env dirPath fileRecs (w, doc) = Some res"
    proof (rule saveFileRecords_enough_fuel)
      fix fileId f s'
      assume "fileId \<in> set fileRecs" "getFile env fileId = Inr f"
        "getMetaType f = TSK_FS_META_TYPE_DIR"
      from ranked [OF Inr this] Suc.prems have "rank (getId f) < fuel" by simp
      then show "\<exists>res. saveDirectoryContents fuel env (dirPath @ [separator env] @ getName f) f s' = Some res"
        by (rule Suc.IH)
    qed
    with s Inr show ?thesis by simp
  qed
qed


end
